theory Spec2Isabelle
  imports Main
begin

section \<open>Strings, errors and the credential pool (api\_manager.py)\<close>

text \<open>
  A Python \<open>str\<close> is a sequence of Unicode code points; it is modelled as a list of
  natural numbers, so that \<open>len\<close> is \<open>length\<close>. \<open>asc\<close> turns an ASCII literal into
  such a str.
\<close>

type_synonym str = "nat list"

definition asc :: "string \<Rightarrow> str" where
  "asc s = map of_char s"

text \<open>The exceptions the two modules can raise past a function boundary.\<close>

datatype error = ValueError | RuntimeError | NameError

text \<open>
  \<open>GeminiAPIManager\<close>: the fields set by \<open>__init__\<close>. \<open>failed_keys\<close> is a Python set
  of key strings and \<open>retry_count\<close> a dict from key strings to counters: both are
  indexed by the content of a key, not by its position in \<open>api_keys\<close>. The index
  and the counters only ever hold \<open>0\<close> or the result of \<open>+ 1\<close> and \<open>%\<close>, so they
  are naturals.
\<close>

record pool =
  api_keys :: "str list"
  current_key_index :: nat
  failed_keys :: "str set"
  retry_count :: "str \<rightharpoonup> nat"
  max_retries :: nat
  retry_delay :: nat

text \<open>
  \<open>GeminiAPIManager.__init__\<close>: an empty list raises \<open>ValueError\<close>; otherwise the
  fields are set as \<open>new_pool\<close> gives them.
\<close>

definition new_pool :: "str list \<Rightarrow> pool" where
  "new_pool keys = \<lparr>api_keys = keys, current_key_index = 0, failed_keys = {},
                     retry_count = Map.empty, max_retries = 3, retry_delay = 1\<rparr>"

definition GeminiAPIManager_init :: "str list \<Rightarrow> error + pool" where
  "GeminiAPIManager_init keys = (if keys = [] then Inl ValueError else Inr (new_pool keys))"

text \<open>The list comprehension at the head of \<open>get_next_key\<close>.\<close>

definition available_keys :: "pool \<Rightarrow> str list" where
  "available_keys p = filter (\<lambda>key. key \<notin> failed_keys p) (api_keys p)"

text \<open>
  \<open>get_next_key\<close>: returns the key (or \<open>None\<close>) and the updated manager. When no key
  is available both \<open>failed_keys\<close> and \<open>retry_count\<close> are cleared and the whole list
  is used.
\<close>

definition get_next_key :: "pool \<Rightarrow> str option \<times> pool" where
  "get_next_key p =
     (let avail0 = available_keys p;
          p1 = (if avail0 = [] then p\<lparr>failed_keys := {}, retry_count := Map.empty\<rparr> else p);
          avail = (if avail0 = [] then api_keys p1 else avail0)
      in if avail = [] then (None, p1)
         else (Some (avail ! (current_key_index p1 mod length avail)),
               p1\<lparr>current_key_index := (current_key_index p1 + 1) mod length avail\<rparr>))"

text \<open>\<open>self.retry_count.get(api_key, 0)\<close>.\<close>

definition counter :: "pool \<Rightarrow> str \<Rightarrow> nat" where
  "counter p key = (case retry_count p key of None \<Rightarrow> 0 | Some n \<Rightarrow> n)"

text \<open>\<open>mark_key_failed\<close>.\<close>

definition mark_key_failed :: "str \<Rightarrow> pool \<Rightarrow> pool" where
  "mark_key_failed api_key p =
     (let p1 = p\<lparr>retry_count := (retry_count p)(api_key \<mapsto> counter p api_key + 1)\<rparr>
      in if counter p1 api_key \<ge> max_retries p1
         then p1\<lparr>failed_keys := insert api_key (failed_keys p1)\<rparr>
         else p1)"

text \<open>
  \<open>get_status\<close> builds a fresh dictionary from the fields and changes nothing;
  \<open>available_keys\<close> there is a difference of two lengths, an integer.
\<close>

record status =
  st_total_keys :: nat
  st_failed_keys :: nat
  st_available_keys :: int
  st_current_key_index :: nat
  st_retry_counts :: "str \<rightharpoonup> nat"

definition get_status :: "pool \<Rightarrow> status \<times> pool" where
  "get_status p =
     (\<lparr>st_total_keys = length (api_keys p),
       st_failed_keys = card (failed_keys p),
       st_available_keys = int (length (api_keys p)) - int (card (failed_keys p)),
       st_current_key_index = current_key_index p,
       st_retry_counts = retry_count p\<rparr>, p)"

text \<open>
  The operations a caller can apply to a manager, and a run of them. Every reachable
  state of a manager is \<open>run_ops ops p0\<close> for the \<open>p0\<close> that \<open>__init__\<close> built.
\<close>

datatype pool_op = GetNextKey | MarkKeyFailed str | GetStatus

fun exec_op :: "pool_op \<Rightarrow> pool \<Rightarrow> pool" where
  "exec_op GetNextKey p = snd (get_next_key p)"
| "exec_op (MarkKeyFailed key) p = mark_key_failed key p"
| "exec_op GetStatus p = snd (get_status p)"

fun run_ops :: "pool_op list \<Rightarrow> pool \<Rightarrow> pool" where
  "run_ops [] p = p"
| "run_ops (x # xs) p = run_ops xs (exec_op x p)"

text \<open>\<open>n\<close> consecutive calls of \<open>get_next_key\<close>, with the keys they return.\<close>

fun next_keys :: "nat \<Rightarrow> pool \<Rightarrow> str option list \<times> pool" where
  "next_keys 0 p = ([], p)"
| "next_keys (Suc n) p =
     (case get_next_key p of (key, p1) \<Rightarrow>
        (case next_keys n p1 of (keys, p2) \<Rightarrow> (key # keys, p2)))"

text \<open>The state invariant of the spec: a quarantined key has reached the threshold.\<close>

definition quarantine_inv :: "pool \<Rightarrow> bool" where
  "quarantine_inv p \<longleftrightarrow> (\<forall>key \<in> failed_keys p. counter p key \<ge> max_retries p)"

text \<open>The cursor bound the spec states, over the available keys.\<close>

definition cursor_inv :: "pool \<Rightarrow> bool" where
  "cursor_inv p \<longleftrightarrow> current_key_index p < max 1 (length (available_keys p))"

section \<open>The remote service and the fallback loop (api\_manager.py)\<close>

text \<open>
  The remote generation service is outside the repository. One attempt
  (\<open>configure_genai\<close>, \<open>GenerativeModel\<close>, \<open>generate_content\<close>, \<open>response.text\<close>, all
  inside one \<open>try\<close>) is a function of the number of attempts made before it, the key,
  the model name and the prompt, which returns the generated text or \<open>None\<close> when any of
  the four steps raises. The model name is \<open>None\<close> when the caller passed none.
\<close>

type_synonym remote = "nat \<Rightarrow> str \<Rightarrow> str option \<Rightarrow> str \<Rightarrow> str option"

text \<open>
  The manager together with the log of the attempts made on the remote service (key,
  model name, prompt), oldest first. The log is what "the number of attempts" of a call
  is read from.
\<close>

record world =
  manager :: pool
  attempts :: "(str \<times> str option \<times> str) list"

text \<open>
  The \<open>for attempt in range(max_attempts)\<close> loop of \<open>generate_content_with_fallback\<close>,
  by the number of iterations left (the loop variable is only printed and used to skip
  the last sleep). \<open>if not api_key\<close> leaves the loop on \<open>None\<close> and on the empty string.
\<close>

fun fallback_loop :: "remote \<Rightarrow> str \<Rightarrow> str option \<Rightarrow> nat \<Rightarrow> world \<Rightarrow> str option \<times> world" where
  "fallback_loop remote prompt model_name 0 w = (None, w)"
| "fallback_loop remote prompt model_name (Suc n) w =
     (case get_next_key (manager w) of
        (None, p1) \<Rightarrow> (None, w\<lparr>manager := p1\<rparr>)
      | (Some api_key, p1) \<Rightarrow>
          if api_key = [] then (None, w\<lparr>manager := p1\<rparr>)
          else (case remote (length (attempts w)) api_key model_name prompt of
                  Some response \<Rightarrow>
                    (Some response,
                     \<lparr>manager = p1, attempts = attempts w @ [(api_key, model_name, prompt)]\<rparr>)
                | None \<Rightarrow>
                    fallback_loop remote prompt model_name n
                      \<lparr>manager = mark_key_failed api_key p1,
                       attempts = attempts w @ [(api_key, model_name, prompt)]\<rparr>))"

text \<open>
  \<open>generate_content_with_fallback\<close>: \<open>max_attempts\<close> defaults to the number of keys;
  \<open>range\<close> of a negative number is empty.
\<close>

definition generate_content_with_fallback ::
    "remote \<Rightarrow> str \<Rightarrow> str option \<Rightarrow> int option \<Rightarrow> world \<Rightarrow> str option \<times> world" where
  "generate_content_with_fallback remote prompt model_name max_attempts w =
     fallback_loop remote prompt model_name
       (case max_attempts of None \<Rightarrow> length (api_keys (manager w)) | Some m \<Rightarrow> nat m) w"

text \<open>A remote service on which every attempt fails.\<close>

definition always_fails :: "remote \<Rightarrow> bool" where
  "always_fails remote \<longleftrightarrow> (\<forall>i key model_name prompt. remote i key model_name prompt = None)"

definition failing_remote :: remote where
  "failing_remote = (\<lambda>i key model_name prompt. None)"

text \<open>
  The key that the lookup after \<open>j\<close> further lookups selects, as long as every key is
  available: position \<open>(current_key_index + j) % len(api_keys)\<close> of the key list.
\<close>

definition tried :: "pool \<Rightarrow> nat \<Rightarrow> str" where
  "tried p j = api_keys p ! ((current_key_index p + j) mod length (api_keys p))"

section \<open>Strings and regular expressions as the agents use them (agents\_enhanced.py)\<close>

text \<open>
  The Unicode character tables behind \<open>str.strip\<close>, \<open>str.lower\<close> and the \<open>re\<close> module are
  not part of the repository; they are a parameter of the model. \<open>isspace\<close> is the
  whitespace class of \<open>strip\<close> and of \<open>\s\<close>, \<open>isdecimal\<close> the class \<open>\d\<close>, \<open>ci_match c t\<close>
  says that the pattern character \<open>c\<close> matches the text character \<open>t\<close> under
  \<open>(?i)\<close>, \<open>ci_range lo hi t\<close> the same for a range \<open>[lo-hi]\<close>, and \<open>str_lower\<close> is
  \<open>str.lower\<close> on a whole string (it is not a map over characters: the final sigma).
\<close>

record chartab =
  isspace :: "nat \<Rightarrow> bool"
  isdecimal :: "nat \<Rightarrow> bool"
  ci_match :: "nat \<Rightarrow> nat \<Rightarrow> bool"
  ci_range :: "nat \<Rightarrow> nat \<Rightarrow> nat \<Rightarrow> bool"
  str_lower :: "str \<Rightarrow> str"

text \<open>
  The tables on Basic Latin and Latin-1, for running the model on texts of these code
  points: the whitespace set of Python 3, the ASCII digits, and simple case folding.
\<close>

definition latin1_fold :: "nat \<Rightarrow> nat" where
  "latin1_fold c =
     (if 65 \<le> c \<and> c \<le> 90 then c + 32
      else if 192 \<le> c \<and> c \<le> 222 \<and> c \<noteq> 215 then c + 32
      else c)"

definition latin1_isspace :: "nat \<Rightarrow> bool" where
  "latin1_isspace c \<longleftrightarrow>
     (9 \<le> c \<and> c \<le> 13) \<or> (28 \<le> c \<and> c \<le> 32) \<or> c = 133 \<or> c = 160 \<or> c = 5760 \<or>
     (8192 \<le> c \<and> c \<le> 8202) \<or> c = 8232 \<or> c = 8233 \<or> c = 8239 \<or> c = 8287 \<or> c = 12288"

definition latin1_tab :: chartab where
  "latin1_tab =
     \<lparr>isspace = latin1_isspace,
      isdecimal = (\<lambda>c. 48 \<le> c \<and> c \<le> 57),
      ci_match = (\<lambda>c t. latin1_fold t = latin1_fold c),
      ci_range = (\<lambda>lo hi t. (lo \<le> t \<and> t \<le> hi) \<or> (lo \<le> latin1_fold t \<and> latin1_fold t \<le> hi) \<or>
                   (\<exists>u \<in> set [lo..<Suc hi]. latin1_fold u = t)),
      str_lower = map latin1_fold\<rparr>"

subsection \<open>String methods\<close>

text \<open>\<open>s.startswith(p)\<close>, \<open>sub in s\<close>, \<open>s.strip()\<close>.\<close>

definition startswith :: "str \<Rightarrow> str \<Rightarrow> bool" where
  "startswith s p \<longleftrightarrow> take (length p) s = p"

fun contains :: "str \<Rightarrow> str \<Rightarrow> bool" where
  "contains sub [] = (sub = [])"
| "contains sub (c # cs) = (startswith (c # cs) sub \<or> contains sub cs)"

definition strip :: "chartab \<Rightarrow> str \<Rightarrow> str" where
  "strip tab s = rev (dropWhile (isspace tab) (rev (dropWhile (isspace tab) s)))"

text \<open>
  \<open>s.replace(old, new)\<close> for a non-empty \<open>old\<close>: the occurrences are replaced from the
  left, without overlap.
\<close>

function replace :: "str \<Rightarrow> str \<Rightarrow> str \<Rightarrow> str" where
  "replace old new [] = []"
| "replace old new (c # cs) =
     (if old \<noteq> [] \<and> startswith (c # cs) old
      then new @ replace old new (drop (length old) (c # cs))
      else c # replace old new cs)"
  by pat_completeness auto
termination
  by (relation "measure (\<lambda>(old, new, s). length s)") (auto simp: neq_Nil_conv)

declare replace.simps [simp del]

text \<open>\<open>s.split('\n')\<close> (never an empty list) and \<open>sep.join(xs)\<close>.\<close>

fun split_on :: "nat \<Rightarrow> str \<Rightarrow> str list" where
  "split_on d [] = [[]]"
| "split_on d (c # cs) =
     (if c = d then [] # split_on d cs
      else (case split_on d cs of [] \<Rightarrow> [[c]] | x # xs \<Rightarrow> (c # x) # xs))"

fun join :: "str \<Rightarrow> str list \<Rightarrow> str" where
  "join sep [] = []"
| "join sep [x] = x"
| "join sep (x # y # ys) = x @ sep @ join sep (y # ys)"

text \<open>The decimal digits of a number, as \<open>f"{i}"\<close> writes it.\<close>

fun digits_of :: "nat \<Rightarrow> nat \<Rightarrow> str" where
  "digits_of 0 n = []"
| "digits_of (Suc fuel) n =
     (if n < 10 then [48 + n] else digits_of fuel (n div 10) @ [48 + n mod 10])"

definition str_of_nat :: "nat \<Rightarrow> str" where
  "str_of_nat n = digits_of (Suc n) n"

subsection \<open>Regular expressions\<close>

text \<open>
  The patterns of the program use literals, classes, greedy and lazy repetition,
  alternatives, groups, one look-ahead and the anchors \<open>\Z\<close> and \<open>$\<close> (without
  \<open>re.MULTILINE\<close>). \<open>LitI\<close> and \<open>RangeI\<close> are a literal and a range under \<open>(?i)\<close>, \<open>Dot\<close> is
  \<open>.\<close> without and \<open>DotAll\<close> with \<open>(?s)\<close>.
\<close>

datatype atom = Lit nat | LitI nat | Dot | DotAll | Space | Digit
  | OneOf "nat list" | NoneOf "nat list" | RangeI nat nat

datatype rx = Atom atom | Eps | Seq rx rx | Alt rx rx | Star rx | Lazy rx
  | Group nat rx | Ahead rx | EndZ | Dollar

fun atom_ok :: "chartab \<Rightarrow> atom \<Rightarrow> nat \<Rightarrow> bool" where
  "atom_ok tab (Lit c) t = (t = c)"
| "atom_ok tab (LitI c) t = ci_match tab c t"
| "atom_ok tab Dot t = (t \<noteq> 10)"
| "atom_ok tab DotAll t = True"
| "atom_ok tab Space t = isspace tab t"
| "atom_ok tab Digit t = isdecimal tab t"
| "atom_ok tab (OneOf cs) t = (t \<in> set cs)"
| "atom_ok tab (NoneOf cs) t = (t \<notin> set cs)"
| "atom_ok tab (RangeI lo hi) t = ci_range tab lo hi t"

text \<open>
  A matcher state is the rest of the subject and the groups captured so far.
  \<open>rx_run tab r st\<close> lists the states in which a match of \<open>r\<close> from \<open>st\<close> can end, in the
  order in which the backtracking matcher of \<open>re\<close> tries them: the first one is the match
  \<open>re\<close> reports. A repetition goes on only after an iteration that consumed something.
\<close>

type_synonym mstate = "str \<times> (nat \<rightharpoonup> str)"

function rx_run :: "chartab \<Rightarrow> rx \<Rightarrow> mstate \<Rightarrow> mstate list" where
  "rx_run tab (Atom a) st =
     (case fst st of [] \<Rightarrow> [] | c # cs \<Rightarrow> if atom_ok tab a c then [(cs, snd st)] else [])"
| "rx_run tab Eps st = [st]"
| "rx_run tab (Seq r1 r2) st = concat (map (rx_run tab r2) (rx_run tab r1 st))"
| "rx_run tab (Alt r1 r2) st = rx_run tab r1 st @ rx_run tab r2 st"
| "rx_run tab (Star r) st =
     concat (map (rx_run tab (Star r))
                 (filter (\<lambda>st'. length (fst st') < length (fst st)) (rx_run tab r st))) @ [st]"
| "rx_run tab (Lazy r) st =
     st # concat (map (rx_run tab (Lazy r))
                      (filter (\<lambda>st'. length (fst st') < length (fst st)) (rx_run tab r st)))"
| "rx_run tab (Group n r) st =
     map (\<lambda>st'. (fst st', (snd st')(n \<mapsto> take (length (fst st) - length (fst st')) (fst st))))
         (rx_run tab r st)"
| "rx_run tab (Ahead r) st = (if rx_run tab r st = [] then [] else [st])"
| "rx_run tab EndZ st = (if fst st = [] then [st] else [])"
| "rx_run tab Dollar st = (if fst st = [] \<or> fst st = [10] then [st] else [])"
  by pat_completeness auto
termination
  by (relation "(\<lambda>(tab, r, st). size r) <*mlex*> measure (\<lambda>(tab, r, st). length (fst st))")
     (auto simp: wf_mlex mlex_less mlex_leq)

subsection \<open>\<open>re.sub\<close>, \<open>re.finditer\<close> and \<open>re.search\<close>\<close>

text \<open>The match that starts at the head of \<open>s\<close>, if there is one: the rest and the groups.\<close>

definition match_at :: "chartab \<Rightarrow> rx \<Rightarrow> str \<Rightarrow> mstate option" where
  "match_at tab r s = (case rx_run tab r (s, Map.empty) of [] \<Rightarrow> None | st # sts \<Rightarrow> Some st)"

text \<open>
  \<open>re.sub(pattern, repl, s)\<close>: the subject is scanned from the left; a match is replaced by
  \<open>repl\<close> of the matched text and its groups and the scan goes on behind it; where nothing
  matches, one character is copied. (No pattern of the program matches the empty string;
  for an empty match the replacement is inserted and one character is copied.)
\<close>

function re_sub :: "chartab \<Rightarrow> rx \<Rightarrow> (str \<Rightarrow> (nat \<rightharpoonup> str) \<Rightarrow> str) \<Rightarrow> str \<Rightarrow> str" where
  "re_sub tab r repl s =
     (case match_at tab r s of
        None \<Rightarrow> (case s of [] \<Rightarrow> [] | c # cs \<Rightarrow> c # re_sub tab r repl cs)
      | Some st \<Rightarrow>
          repl (take (length s - length (fst st)) s) (snd st) @
          (if length (fst st) < length s then re_sub tab r repl (fst st)
           else (case s of [] \<Rightarrow> [] | c # cs \<Rightarrow> c # re_sub tab r repl cs)))"
  by pat_completeness auto
termination
  by (relation "measure (\<lambda>(tab, r, repl, s). length s)") auto

declare re_sub.simps [simp del]

text \<open>
  \<open>re.finditer(pattern, s)\<close>: the spans \<open>(start, end)\<close> of the matches, left to right;
  \<open>pos\<close> is the offset of the part of the subject still to scan.
\<close>

function finditer_from :: "chartab \<Rightarrow> rx \<Rightarrow> nat \<Rightarrow> str \<Rightarrow> (nat \<times> nat) list" where
  "finditer_from tab r pos s =
     (case match_at tab r s of
        None \<Rightarrow> (case s of [] \<Rightarrow> [] | c # cs \<Rightarrow> finditer_from tab r (pos + 1) cs)
      | Some st \<Rightarrow>
          (pos, pos + (length s - length (fst st))) #
          (if length (fst st) < length s
           then finditer_from tab r (pos + (length s - length (fst st))) (fst st)
           else (case s of [] \<Rightarrow> [] | c # cs \<Rightarrow> finditer_from tab r (pos + 1) cs)))"
  by pat_completeness auto
termination
  by (relation "measure (\<lambda>(tab, r, pos, s). length s)") auto

declare finditer_from.simps [simp del]

definition finditer :: "chartab \<Rightarrow> rx \<Rightarrow> str \<Rightarrow> (nat \<times> nat) list" where
  "finditer tab r s = finditer_from tab r 0 s"

text \<open>\<open>re.search(pattern, s)\<close>: the groups of the leftmost match.\<close>

fun re_search :: "chartab \<Rightarrow> rx \<Rightarrow> str \<Rightarrow> (nat \<rightharpoonup> str) option" where
  "re_search tab r [] = map_option snd (match_at tab r [])"
| "re_search tab r (c # cs) =
     (case match_at tab r (c # cs) of
        Some st \<Rightarrow> Some (snd st)
      | None \<Rightarrow> re_search tab r cs)"

text \<open>\<open>match.group(n)\<close> for a group that took part in the match.\<close>

definition group :: "(nat \<rightharpoonup> str) \<Rightarrow> nat \<Rightarrow> str" where
  "group g n = (case g n of None \<Rightarrow> [] | Some t \<Rightarrow> t)"

subsection \<open>The string constants of the two modules\<close>

text \<open>
  The literals and f-strings of the source, character by character; code points outside
  the printable ASCII letters, digits and punctuation are written as numbers (10 is the
  line feed).
\<close>

definition full_prompt :: "str \<Rightarrow> str \<Rightarrow> str" where
  "full_prompt prompt content_to_process =
     prompt @ [10, 10] @ asc ''Conte'' @ [250] @ asc ''do a ser processado: ''
     @ content_to_process"

definition gemini_pro :: str where
  "gemini_pro =
     asc ''gemini-pro''"

definition key_TranscriberExtractorAgent :: str where
  "key_TranscriberExtractorAgent =
     asc ''TranscriberExtractorAgent''"

definition key_StructurerVisualizerAgent :: str where
  "key_StructurerVisualizerAgent =
     asc ''StructurerVisualizerAgent''"

definition key_LatexExpertAgent :: str where
  "key_LatexExpertAgent =
     asc ''LatexExpertAgent''"

definition key_ObsidianFormatterAgent :: str where
  "key_ObsidianFormatterAgent =
     asc ''ObsidianFormatterAgent''"

definition transcriber_name :: str where
  "transcriber_name =
     asc ''Transcritor/Extrator de Conte'' @ [250] @ asc ''do''"

definition transcriber_prompt :: str where
  "transcriber_prompt =
     [10] @ asc ''        Voc'' @ [234] @ asc '' '' @ [233]
     @ asc '' o Agente 1: Transcritor/Extrator de Conte'' @ [250] @ asc ''do. Sua fun''
     @ [231, 227] @ asc ''o '' @ [233] @ asc '' realizar a transcri'' @ [231, 227]
     @ asc ''o fiel de '' @ [225] @ asc ''udios/v'' @ [237] @ asc ''deos ou a extra''
     @ [231, 227] @ asc ''o precisa de texto de PDFs/slides. Voc'' @ [234] @ asc '' n''
     @ [227] @ asc ''o interpreta, resume ou opina, apenas captura a mat'' @ [233]
     @ asc ''ria-prima. Sua sa'' @ [237] @ asc ''da deve manter a fidelidade ao conte''
     @ [250] @ asc ''do original, incluindo quest'' @ [245] @ asc ''es de revis'' @ [227]
     @ asc ''o e gabaritos.'' @ [10] @ asc ''        '' @ [10] @ asc ''        Instru''
     @ [231, 245] @ asc ''es espec'' @ [237] @ asc ''ficas:'' @ [10]
     @ asc ''        - Mantenha a fidelidade absoluta ao conte'' @ [250]
     @ asc ''do original'' @ [10] @ asc ''        - N'' @ [227] @ asc ''o remova informa''
     @ [231, 245] @ asc ''es importantes'' @ [10] @ asc ''        - Preserve quest'' @ [245]
     @ asc ''es, gabaritos e coment'' @ [225] @ asc ''rios'' @ [10]
     @ asc ''        - Identifique e marque claramente bizus e dicas'' @ [10]
     @ asc ''        ''"

definition structurer_name :: str where
  "structurer_name =
     asc ''Estruturador e Visualizador''"

definition structurer_prompt :: str where
  "structurer_prompt =
     [10] @ asc ''        Voc'' @ [234] @ asc '' '' @ [233]
     @ asc '' o Agente 2: Estruturador e Visualizador. Sua fun'' @ [231, 227] @ asc ''o ''
     @ [233] @ asc '' organizar o conte'' @ [250] @ asc ''do bruto em uma estrutura l''
     @ [243] @ asc ''gica de Markdown, aplicando heur'' @ [237]
     @ asc ''sticas de visualiza'' @ [231, 227]
     @ asc ''o para decidir qual diagrama (Mermaid) '' @ [233]
     @ asc '' mais apropriado para cada tipo de informa'' @ [231, 227] @ asc ''o.'' @ [10]
     @ asc ''        '' @ [10] @ asc ''        Instru'' @ [231, 245] @ asc ''es espec''
     @ [237] @ asc ''ficas:'' @ [10] @ asc ''        - Organize o conte'' @ [250]
     @ asc ''do em se'' @ [231, 245] @ asc ''es claras e hier'' @ [225] @ asc ''rquicas''
     @ [10] @ asc ''        - Use formata'' @ [231, 227] @ asc ''o Markdown apropriada (t''
     @ [237] @ asc ''tulos, listas, '' @ [234] @ asc ''nfases)'' @ [10]
     @ asc ''        - Sugira diagramas Mermaid quando apropriado'' @ [10]
     @ asc ''        - Mantenha a legibilidade e navegabilidade'' @ [10]
     @ asc ''        - Preserve toda a informa'' @ [231, 227] @ asc ''o importante'' @ [10]
     @ asc ''        ''"

definition latex_name :: str where
  "latex_name =
     asc ''Especialista em LaTeX''"

definition latex_prompt :: str where
  "latex_prompt =
     [10] @ asc ''        Voc'' @ [234] @ asc '' '' @ [233]
     @ asc '' o Agente 3: Especialista em LaTeX. Sua fun'' @ [231, 227] @ asc ''o '' @ [233]
     @ asc '' auxiliar na gera'' @ [231, 227] @ asc ''o de c'' @ [243]
     @ asc ''digo LaTeX para f'' @ [243] @ asc ''rmulas e express'' @ [245]
     @ asc ''es matem'' @ [225]
     @ asc ''ticas, garantindo que a sintaxe esteja correta e seja compat'' @ [237]
     @ asc ''vel com o MathJax do Obsidian.'' @ [10] @ asc ''        '' @ [10]
     @ asc ''        Instru'' @ [231, 245] @ asc ''es espec'' @ [237] @ asc ''ficas:''
     @ [10] @ asc ''        - Valide e corrija sintaxe LaTeX'' @ [10]
     @ asc ''        - Garanta compatibilidade com MathJax'' @ [10]
     @ asc ''        - Use $...$ para f'' @ [243] @ asc ''rmulas inline'' @ [10]
     @ asc ''        - Use $$...$$ para f'' @ [243] @ asc ''rmulas em bloco'' @ [10]
     @ asc ''        - Mantenha formata'' @ [231, 227] @ asc ''o clara e leg'' @ [237]
     @ asc ''vel'' @ [10] @ asc ''        ''"

definition formatter_name :: str where
  "formatter_name =
     asc ''Formatador Final Obsidian''"

definition formatter_prompt :: str where
  "formatter_prompt =
     [10] @ asc ''        Voc'' @ [234] @ asc '' '' @ [233]
     @ asc '' o Agente 4: Formatador Final Obsidian. Sua fun'' @ [231, 227] @ asc ''o ''
     @ [233] @ asc '' revisar a nota completa para garantir que toda a formata''
     @ [231, 227] @ asc ''o Markdown esteja correta, que os links internos e externos ''
     @ asc ''funcionem, e que a nota seja clara, naveg'' @ [225]
     @ asc ''vel e otimizada para o uso no Obsidian.'' @ [10] @ asc ''        '' @ [10]
     @ asc ''        Instru'' @ [231, 245] @ asc ''es espec'' @ [237] @ asc ''ficas:''
     @ [10] @ asc ''        - Revise toda a formata'' @ [231, 227] @ asc ''o Markdown''
     @ [10] @ asc ''        - Adicione tags relevantes e '' @ [250] @ asc ''teis'' @ [10]
     @ asc ''        - Garanta navegabilidade e clareza'' @ [10]
     @ asc ''        - Otimize para uso no Obsidian'' @ [10]
     @ asc ''        - Mantenha consist'' @ [234] @ asc ''ncia na formata'' @ [231, 227]
     @ asc ''o'' @ [10] @ asc ''        ''"

text \<open>\<open>TranscriberExtractorAgent.process\<close>.\<close>

definition word_Questao :: str where
  "word_Questao =
     asc ''Quest'' @ [227] @ asc ''o''"

definition word_Gabarito :: str where
  "word_Gabarito =
     asc ''Gabarito''"

definition bizu_request :: "str \<Rightarrow> str" where
  "bizu_request processed_content =
     asc ''Identifique dicas, macetes ou bizus importantes no seguinte ''
     @ asc ''texto. Retorne apenas as dicas encontradas, uma por linha: ''
     @ processed_content"

definition ai_bizu :: "str \<Rightarrow> str" where
  "ai_bizu stripped_line =
     asc ''Bizu: '' @ stripped_line"

text \<open>\<open>StructurerVisualizerAgent.process\<close>.\<close>

definition heading_structured :: str where
  "heading_structured =
     asc ''# Conte'' @ [250] @ asc ''do Estruturado'' @ [10, 10]"

definition heading_main :: str where
  "heading_main =
     asc ''## Conte'' @ [250] @ asc ''do Principal'' @ [10, 10]"

definition structure_request :: "str \<Rightarrow> str" where
  "structure_request main_content =
     [10] @ asc ''                    Estruture o seguinte conte'' @ [250]
     @ asc ''do em Markdown bem organizado:'' @ [10] @ asc ''                    - Use t''
     @ [237] @ asc ''tulos e subt'' @ [237] @ asc ''tulos apropriados (##, ###)'' @ [10]
     @ asc ''                    - Crie listas quando apropriado'' @ [10]
     @ asc ''                    - Mantenha par'' @ [225] @ asc ''grafos bem formatados''
     @ [10] @ asc ''                    - Preserve toda a informa'' @ [231, 227]
     @ asc ''o original'' @ [10] @ asc ''                    - N'' @ [227]
     @ asc ''o adicione informa'' @ [231, 245] @ asc ''es que n'' @ [227] @ asc ''o est''
     @ [227] @ asc ''o no texto original'' @ [10] @ asc ''                    '' @ [10]
     @ asc ''                    Conte'' @ [250] @ asc ''do: '' @ main_content @ [10]
     @ asc ''                    ''"

definition heading_bizus :: str where
  "heading_bizus =
     asc ''## '' @ [128161] @ asc '' Bizus e Dicas Importantes'' @ [10, 10]"

definition label_Bizu :: str where
  "label_Bizu =
     asc ''Bizu:''"

definition label_bizu :: str where
  "label_bizu =
     asc ''bizu:''"

definition tip_line :: "nat \<Rightarrow> str \<Rightarrow> str" where
  "tip_line i clean_bizu =
     asc ''> [!TIP] **Bizu '' @ str_of_nat i @ asc '':** '' @ clean_bizu @ [10, 10]"

definition heading_questions :: str where
  "heading_questions =
     asc ''## '' @ [128221] @ asc '' Quest'' @ [245] @ asc ''es de Revis'' @ [227]
     @ asc ''o'' @ [10, 10]"

definition question_request :: "str \<Rightarrow> str" where
  "question_request question_text =
     [10] @ asc ''                    Formate a seguinte quest'' @ [227]
     @ asc ''o em Markdown bem estruturado:'' @ [10]
     @ asc ''                    - Separe claramente o enunciado, alterna''
     @ asc ''tivas, gabarito e coment'' @ [225] @ asc ''rio'' @ [10]
     @ asc ''                    - Use formata'' @ [231, 227]
     @ asc ''o apropriada para cada se'' @ [231, 227] @ asc ''o'' @ [10]
     @ asc ''                    - Mantenha toda a informa'' @ [231, 227]
     @ asc ''o original'' @ [10] @ asc ''                    '' @ [10]
     @ asc ''                    Quest'' @ [227] @ asc ''o: '' @ question_text @ [10]
     @ asc ''                    ''"

definition question_block :: "nat \<Rightarrow> str \<Rightarrow> str" where
  "question_block i formatted_question =
     asc ''### Quest'' @ [227] @ asc ''o '' @ str_of_nat i @ [10, 10] @ formatted_question
     @ [10, 10] @ asc ''---'' @ [10, 10]"

definition question_head :: "nat \<Rightarrow> str" where
  "question_head i =
     asc ''### Quest'' @ [227] @ asc ''o '' @ str_of_nat i @ [10, 10]"

definition question_body :: "str \<Rightarrow> str" where
  "question_body q_body =
     q_body @ [10, 10]"

definition checkbox_line :: "str \<Rightarrow> str" where
  "checkbox_line stripped_alt_line =
     asc ''- [ ] '' @ stripped_alt_line"

definition bold_gabarito :: "str \<Rightarrow> str" where
  "bold_gabarito gabarito =
     asc ''**'' @ gabarito @ asc ''**'' @ [10, 10]"

definition bold_comentario :: "str \<Rightarrow> str" where
  "bold_comentario comentario =
     asc ''**'' @ comentario @ asc ''**'' @ [10, 10]"

definition question_rule :: "str" where
  "question_rule  =
     asc ''---'' @ [10, 10]"

definition question_block_raw :: "nat \<Rightarrow> str \<Rightarrow> str" where
  "question_block_raw i question_text =
     asc ''### Quest'' @ [227] @ asc ''o '' @ str_of_nat i @ [10, 10] @ question_text
     @ [10, 10] @ asc ''---'' @ [10, 10]"

definition diagram_request :: "str \<Rightarrow> str" where
  "diagram_request main_content_head =
     [10] @ asc ''            Analise o seguinte conte'' @ [250]
     @ asc ''do e determine se seria '' @ [250] @ asc ''til adicionar um diagrama Mermaid.''
     @ [10] @ asc ''            Se sim, especifique o tipo (flowchart, sequenceD''
     @ asc ''iagram, graph, mindmap, etc.) e forne'' @ [231] @ asc ''a o c'' @ [243]
     @ asc ''digo Mermaid.'' @ [10] @ asc ''            Se n'' @ [227]
     @ asc ''o for apropriado, responda apenas '' @ [39] @ asc ''Nenhum diagrama necess''
     @ [225] @ asc ''rio'' @ [39] @ asc ''.'' @ [10] @ asc ''            '' @ [10]
     @ asc ''            Conte'' @ [250] @ asc ''do: '' @ main_content_head @ [10]
     @ asc ''            ''"

definition word_mermaid :: str where
  "word_mermaid =
     asc ''mermaid''"

definition word_nenhum :: str where
  "word_nenhum =
     asc ''nenhum''"

definition heading_diagram :: str where
  "heading_diagram =
     asc ''## '' @ [128202] @ asc '' Diagrama Ilustrativo'' @ [10, 10]"

definition word_dollar :: str where
  "word_dollar =
     asc ''$''"

definition word_formula :: str where
  "word_formula =
     asc ''f'' @ [243] @ asc ''rmula''"

definition word_equacao :: str where
  "word_equacao =
     asc ''equa'' @ [231, 227] @ asc ''o''"

text \<open>\<open>LatexExpertAgent.process\<close>.\<close>

definition latex_request :: "str \<Rightarrow> str" where
  "latex_request structured_content =
     [10] @ asc ''                Revise e melhore a sintaxe LaTeX no seguinte''
     @ asc '' texto:'' @ [10] @ asc ''                - Corrija erros de sintaxe LaTeX''
     @ [10] @ asc ''                - Garanta compatibilidade com MathJax do Obs''
     @ asc ''idian'' @ [10] @ asc ''                - Mantenha f'' @ [243]
     @ asc ''rmulas inline com $...$ e em bloco com $$...$$'' @ [10]
     @ asc ''                - N'' @ [227] @ asc ''o altere o conte'' @ [250] @ asc ''do n''
     @ [227] @ asc ''o-matem'' @ [225] @ asc ''tico'' @ [10]
     @ asc ''                - Retorne o texto completo com as corre'' @ [231, 245]
     @ asc ''es'' @ [10] @ asc ''                '' @ [10] @ asc ''                Texto: ''
     @ structured_content @ [10] @ asc ''                ''"

definition math_notice :: str where
  "math_notice =
     [10] @ asc ''> [!NOTE] '' @ [129518] @ asc '' Este conte'' @ [250] @ asc ''do cont''
     @ [233] @ asc ''m f'' @ [243] @ asc ''rmulas matem'' @ [225]
     @ asc ''ticas renderizadas com LaTeX/MathJax.'' @ [10, 10]"

text \<open>\<open>ObsidianFormatterAgent.process\<close>.\<close>

definition review_request :: "str \<Rightarrow> str" where
  "review_request content =
     [10] @ asc ''            Fa'' @ [231] @ asc ''a uma revis'' @ [227]
     @ asc ''o final desta nota para Obsidian:'' @ [10]
     @ asc ''            - Corrija qualquer problema de formata'' @ [231, 227]
     @ asc ''o Markdown'' @ [10]
     @ asc ''            - Adicione tags relevantes no final (formato: ta''
     @ asc ''gs: [tag1, tag2, tag3])'' @ [10] @ asc ''            - Garanta que t'' @ [237]
     @ asc ''tulos est'' @ [227] @ asc ''o bem hierarquizados'' @ [10]
     @ asc ''            - Verifique se listas e formata'' @ [231, 245] @ asc ''es est''
     @ [227] @ asc ''o corretas'' @ [10] @ asc ''            - Mantenha todo o conte''
     @ [250] @ asc ''do original'' @ [10] @ asc ''            - Retorne apenas o conte''
     @ [250] @ asc ''do revisado, sem coment'' @ [225] @ asc ''rios adicionais'' @ [10]
     @ asc ''            '' @ [10] @ asc ''            Nota: '' @ content @ [10]
     @ asc ''            ''"

definition tags_marker :: str where
  "tags_marker =
     asc ''tags:''"

definition fallback_tags :: str where
  "fallback_tags =
     [10] @ asc ''---'' @ [10] @ asc ''tags: [matem'' @ [225] @ asc ''tica, latex, estudo]''
     @ [10]"

definition header_marker :: str where
  "header_marker =
     asc ''---''"

definition metadata_header :: "str \<Rightarrow> str" where
  "metadata_header today =
     asc ''---'' @ [10] @ asc ''created: '' @ today @ [10]
     @ asc ''tags: [processado, multi-agente]'' @ [10] @ asc ''---'' @ [10, 10]"

subsection \<open>The patterns of the two modules\<close>

text \<open>
  A run of literal characters, and a sequence of patterns. The patterns below are the
  pattern strings of the source, item by item: \<open>.*?\<close> is \<open>Lazy\<close> of the dot, \<open>\s*\<close> is
  \<open>Star\<close> of the class, \<open>x+\<close> is \<open>x\<close> followed by \<open>Star x\<close>, \<open>(?=...)\<close> is \<open>Ahead\<close>, and under
  \<open>(?i)\<close> every literal is a \<open>LitI\<close>.
\<close>

definition lits :: "(nat \<Rightarrow> atom) \<Rightarrow> str \<Rightarrow> rx list" where
  "lits mk s = map (\<lambda>c. Atom (mk c)) s"

fun seqs :: "rx list \<Rightarrow> rx" where
  "seqs [] = Eps"
| "seqs [r] = r"
| "seqs (r # rs) = Seq r (seqs rs)"

definition remove_apresentacao :: rx where
  "remove_apresentacao =
     seqs (lits LitI (asc ''Apresenta'' @ [231, 227] @ asc ''o do Curso'') @
     [Lazy (Atom DotAll), Ahead (Alt (seqs (lits LitI ([10, 10]))) EndZ)])"

definition remove_sumario :: rx where
  "remove_sumario =
     seqs (lits LitI (asc ''Sum'' @ [225] @ asc ''rio'') @ [Lazy (Atom DotAll),
     Ahead (Alt (seqs (lits LitI ([10, 10]))) EndZ)])"

definition remove_indice :: rx where
  "remove_indice =
     seqs (lits LitI ([205] @ asc ''ndice'') @ [Lazy (Atom DotAll),
     Ahead (Alt (seqs (lits LitI ([10, 10]))) EndZ)])"

definition remove_introdutorio :: rx where
  "remove_introdutorio =
     seqs (lits LitI (asc ''Conte'' @ [250] @ asc ''do Introdut'' @ [243] @
     asc ''rio e Administrativo'') @ [Lazy (Atom DotAll),
     Ahead (Alt (seqs (lits LitI ([10, 10]))) EndZ)])"

definition remove_publicitario :: rx where
  "remove_publicitario =
     seqs (lits LitI (asc ''Material Publicit'' @ [225] @ asc ''rio'') @
     [Lazy (Atom DotAll), Ahead (Alt (seqs (lits LitI ([10, 10]))) EndZ)])"

definition remove_metadados :: rx where
  "remove_metadados =
     seqs (lits LitI (asc ''Metadados de Origem'') @ [Lazy (Atom DotAll),
     Ahead (Alt (seqs (lits LitI ([10, 10]))) EndZ)])"

definition remove_pagina :: rx where
  "remove_pagina =
     seqs (lits LitI (asc ''P'' @ [225] @ asc ''gina '') @
     [Seq (Atom Digit) (Star (Atom Digit))])"

definition remove_direitos :: rx where
  "remove_direitos =
     seqs (lits LitI (asc ''Direitos Autorais '' @ [169] @ asc '' '') @
     [seqs (replicate 4 (Atom Digit))])"

definition remove_secoes :: rx where
  "remove_secoes =
     seqs (lits LitI (asc ''Se'' @ [231, 245] @ asc ''es de Exerc'' @ [237] @
     asc ''cios'') @ [Lazy (Atom DotAll), Ahead (Alt (seqs (lits LitI ([10, 10]))) EndZ)])"

definition remove_exercicios :: rx where
  "remove_exercicios =
     seqs (lits LitI (asc ''Exerc'' @ [237] @ asc ''cios N'' @ [227] @
     asc ''o Comentados/Resolvidos'') @ [Lazy (Atom DotAll),
     Ahead (Alt (seqs (lits LitI ([10, 10]))) EndZ)])"

definition patterns_to_remove :: "rx list" where
  "patterns_to_remove =
     [remove_apresentacao, remove_sumario, remove_indice, remove_introdutorio,
      remove_publicitario, remove_metadados, remove_pagina, remove_direitos, remove_secoes,
      remove_exercicios]"

definition bizu_pattern :: rx where
  "bizu_pattern =
     Group 1 (seqs (lits LitI (asc ''bizu'') @ [Star (Atom Space), Atom (OneOf [58, 33]),
     Lazy (Atom Dot), Alt (seqs (lits LitI ([10]))) Dollar]))"

definition question_pattern :: rx where
  "question_pattern =
     Group 1 (seqs (lits LitI (asc ''Quest'' @ [227] @ asc ''o'') @ [Star (Atom Space),
     Star (Atom Digit), Star (Atom Space)] @ lits LitI (asc ''('') @ [Lazy (Atom DotAll)] @
     lits LitI (asc '')'') @ [Lazy (Atom DotAll),
     Star (seqs (lits LitI (asc ''Alternativa'') @ [Star (Atom Space),
     Atom (RangeI 65 90)] @ lits LitI (asc '')'') @ [Lazy (Atom DotAll)]))] @
     lits LitI (asc ''Gabarito'') @ [Star (Atom Space), Atom (OneOf [58, 33]),
     Lazy (Atom DotAll)] @ lits LitI (asc ''Coment'' @ [225] @ asc ''rio'') @
     [Star (Atom Space), Atom (OneOf [58, 33]), Lazy (Atom DotAll),
     Alt (seqs (lits LitI ([10, 10]))) EndZ]))"

definition question_parts_pattern :: rx where
  "question_parts_pattern =
     seqs ([Group 1 (seqs (lits LitI (asc ''Quest'' @ [227] @ asc ''o'') @
     [Star (Atom Space), Star (Atom Digit), Star (Atom Space)] @ lits LitI (asc ''('') @
     [Lazy (Atom DotAll)] @ lits LitI (asc '')'') @ [Lazy (Atom DotAll)])),
     Group 2 (seqs (lits LitI (asc ''Alternativa'') @ [Star (Atom Space),
     Atom (RangeI 65 90)] @ lits LitI (asc '')'') @ [Lazy (Atom DotAll),
     Star (seqs (lits LitI ([10] @ asc ''Alternativa'') @ [Star (Atom Space),
     Atom (RangeI 65 90)] @ lits LitI (asc '')'') @ [Lazy (Atom DotAll)]))])),
     Group 3 (seqs (lits LitI (asc ''Gabarito'') @ [Star (Atom Space),
     Atom (OneOf [58, 33]), Lazy (Atom DotAll)])),
     Group 4 (seqs (lits LitI (asc ''Coment'' @ [225] @ asc ''rio'') @ [Star (Atom Space),
     Atom (OneOf [58, 33]), Star (Atom DotAll)]))])"

definition latex_inline_pattern :: rx where
  "latex_inline_pattern =
     seqs (lits Lit (asc ''$'') @
     [Group 1 (Seq (Atom (NoneOf [36])) (Lazy (Atom (NoneOf [36]))))] @
     lits Lit (asc ''$''))"

definition latex_block_pattern :: rx where
  "latex_block_pattern =
     seqs (lits Lit (asc ''$$'') @
     [Group 1 (Seq (Atom (NoneOf [36])) (Lazy (Atom (NoneOf [36]))))] @
     lits Lit (asc ''$$''))"

section \<open>The agents and the pipeline (agents\_enhanced.py)\<close>

text \<open>\<open>EnhancedAgent\<close>: the fields the agents read. All agents share the one manager.\<close>

record agent =
  agent_name :: str
  agent_prompt :: str
  agent_model :: "str option"

text \<open>
  \<open>EnhancedAgent.process_with_gemini\<close>: \<open>max_attempts\<close> is left to its default; an answer
  that is \<open>None\<close> or empty raises \<open>RuntimeError\<close>.
\<close>

definition process_with_gemini ::
    "remote \<Rightarrow> agent \<Rightarrow> str \<Rightarrow> world \<Rightarrow> (error + str) \<times> world" where
  "process_with_gemini remote a content_to_process w =
     (case generate_content_with_fallback remote
             (full_prompt (agent_prompt a) content_to_process) (agent_model a) None w of
        (None, w') \<Rightarrow> (Inl RuntimeError, w')
      | (Some response, w') \<Rightarrow>
          (if response = [] then Inl RuntimeError else Inr response, w'))"

subsection \<open>Agent 1: \<open>TranscriberExtractorAgent\<close>\<close>

record extracted =
  main_content :: str
  bizus :: "str list"
  questions :: "str list"

text \<open>The replacement function of the removal loop: a match that mentions a question or
  an answer key is put back.\<close>

definition keep_exam_content :: "str \<Rightarrow> (nat \<rightharpoonup> str) \<Rightarrow> str" where
  "keep_exam_content m g =
     (if \<not> contains word_Questao m \<and> \<not> contains word_Gabarito m then [] else m)"

definition remove_boilerplate :: "chartab \<Rightarrow> str \<Rightarrow> str" where
  "remove_boilerplate tab content =
     foldl (\<lambda>processed_content pattern. re_sub tab pattern keep_exam_content processed_content)
       content patterns_to_remove"

text \<open>
  The loop \<open>for match in reversed(matches)\<close>: \<open>match.group(0)\<close> is a slice of the string
  that was searched, \<open>orig\<close>; the span is cut out of the current text. The caller passes
  the spans in reverse and reverses the collected items afterwards, as the source does.
\<close>

fun cut_matches :: "chartab \<Rightarrow> str \<Rightarrow> (nat \<times> nat) list \<Rightarrow> str list \<times> str \<Rightarrow> str list \<times> str" where
  "cut_matches tab orig [] acc = acc"
| "cut_matches tab orig (m # ms) acc =
     cut_matches tab orig ms
       (fst acc @ [strip tab (take (snd m - fst m) (drop (fst m) orig))],
        take (fst m) (snd acc) @ drop (snd m) (snd acc))"

text \<open>The loop over the lines of the remote answer; \<open>bizus\<close> grows while it runs.\<close>

definition add_ai_bizus :: "chartab \<Rightarrow> str \<Rightarrow> str list \<Rightarrow> str list" where
  "add_ai_bizus tab ai_bizus bizus0 =
     foldl (\<lambda>bs line.
              if strip tab line \<noteq> [] \<and> strip tab line \<notin> set (map (strip tab) bs)
              then bs @ [ai_bizu (strip tab line)] else bs)
       bizus0 (split_on 10 (strip tab ai_bizus))"

definition TranscriberExtractorAgent_process ::
    "chartab \<Rightarrow> remote \<Rightarrow> agent \<Rightarrow> str \<Rightarrow> world \<Rightarrow> extracted \<times> world" where
  "TranscriberExtractorAgent_process tab remote a content w =
     (let content1 = remove_boilerplate tab content;
          cut1 = cut_matches tab content1 (rev (finditer tab bizu_pattern content1)) ([], content1);
          bizus1 = rev (fst cut1);
          content2 = snd cut1;
          ai = (if length content2 > 1000
                then (case process_with_gemini remote a (bizu_request content2) w of
                        (Inr ai_bizus, w') \<Rightarrow>
                          (if ai_bizus \<noteq> [] \<and> strip tab ai_bizus \<noteq> []
                           then add_ai_bizus tab ai_bizus bizus1 else bizus1, w')
                      | (Inl e, w') \<Rightarrow> (bizus1, w'))
                else (bizus1, w));
          cut2 = cut_matches tab content2 (rev (finditer tab question_pattern content2)) ([], content2)
      in (\<lparr>main_content = strip tab (snd cut2), bizus = fst ai, questions = rev (fst cut2)\<rparr>,
          snd ai))"

subsection \<open>Agent 2: \<open>StructurerVisualizerAgent\<close>\<close>

record structured =
  structured_content :: str
  has_math :: bool

text \<open>The expression stored under \<open>'has_math'\<close>.\<close>

definition math_flag :: "chartab \<Rightarrow> str \<Rightarrow> bool" where
  "math_flag tab mc \<longleftrightarrow>
     contains word_dollar mc \<or> contains word_formula (str_lower tab mc) \<or>
     contains word_equacao (str_lower tab mc)"

text \<open>The loop over the tips, numbered from 1.\<close>

fun format_bizus :: "chartab \<Rightarrow> nat \<Rightarrow> str list \<Rightarrow> str \<Rightarrow> str" where
  "format_bizus tab i [] sc = sc"
| "format_bizus tab i (bizu # rest) sc =
     format_bizus tab (Suc i) rest
       (sc @ tip_line i (strip tab (replace label_bizu [] (replace label_Bizu [] bizu))))"

text \<open>The \<open>except\<close> branch of the question loop: the split by the second pattern.\<close>

definition format_question_fallback :: "chartab \<Rightarrow> nat \<Rightarrow> str \<Rightarrow> str" where
  "format_question_fallback tab i question_text =
     (case re_search tab question_parts_pattern question_text of
        Some g \<Rightarrow>
          (let q_body = strip tab (group g 1);
               alternatives_raw = strip tab (group g 2);
               gabarito = strip tab (group g 3);
               comentario = strip tab (group g 4);
               formatted_alternatives =
                 map (\<lambda>alt_line. checkbox_line (strip tab alt_line))
                     (filter (\<lambda>alt_line. strip tab alt_line \<noteq> []) (split_on 10 alternatives_raw))
           in question_head i @ question_body q_body @
              join [10] formatted_alternatives @ [10, 10] @
              bold_gabarito gabarito @ bold_comentario comentario @ question_rule)
      | None \<Rightarrow> question_block_raw i question_text)"

text \<open>The loop over the questions, numbered from 1: one remote request each.\<close>

fun format_questions ::
    "chartab \<Rightarrow> remote \<Rightarrow> agent \<Rightarrow> nat \<Rightarrow> str list \<Rightarrow> str \<times> world \<Rightarrow> str \<times> world" where
  "format_questions tab remote a i [] acc = acc"
| "format_questions tab remote a i (question_text # rest) acc =
     (case process_with_gemini remote a (question_request question_text) (snd acc) of
        (Inr formatted_question, w') \<Rightarrow>
          format_questions tab remote a (Suc i) rest
            (fst acc @ question_block i formatted_question, w')
      | (Inl e, w') \<Rightarrow>
          format_questions tab remote a (Suc i) rest
            (fst acc @ format_question_fallback tab i question_text, w'))"

definition StructurerVisualizerAgent_process ::
    "chartab \<Rightarrow> remote \<Rightarrow> agent \<Rightarrow> extracted \<Rightarrow> world \<Rightarrow> structured \<times> world" where
  "StructurerVisualizerAgent_process tab remote a extracted_data w =
     (let mc = main_content extracted_data;
          s0 = (heading_structured, w);
          s1 = (if mc \<noteq> [] then
                  (if length mc > 500
                   then (case process_with_gemini remote a (structure_request mc) w of
                           (Inr ai_structured, w') \<Rightarrow>
                             (fst s0 @ heading_main @ ai_structured @ [10, 10], w')
                         | (Inl e, w') \<Rightarrow> (fst s0 @ heading_main @ mc @ [10, 10], w'))
                   else (fst s0 @ heading_main @ mc @ [10, 10], w))
                else s0);
          s2 = (if bizus extracted_data \<noteq> []
                then (format_bizus tab 1 (bizus extracted_data) (fst s1 @ heading_bizus), snd s1)
                else s1);
          s3 = (if questions extracted_data \<noteq> []
                then format_questions tab remote a 1 (questions extracted_data)
                       (fst s2 @ heading_questions, snd s2)
                else s2);
          s4 = (case process_with_gemini remote a (diagram_request (take 1000 mc)) (snd s3) of
                  (Inr diagram_suggestion, w') \<Rightarrow>
                    (if contains word_mermaid (str_lower tab diagram_suggestion) \<and>
                        \<not> contains word_nenhum (str_lower tab diagram_suggestion)
                     then fst s3 @ heading_diagram @ diagram_suggestion @ [10, 10]
                     else fst s3, w')
                | (Inl e, w') \<Rightarrow> (fst s3, w'))
      in (\<lparr>structured_content = fst s4,
           has_math = math_flag tab mc\<rparr>,
          snd s4))"

subsection \<open>Agent 3: \<open>LatexExpertAgent\<close>\<close>

record latexed =
  content :: str
  latex_processed :: bool

text \<open>The replacement templates \<open>$\1$\<close> and \<open>$$\1$$\<close>.\<close>

definition inline_template :: "str \<Rightarrow> (nat \<rightharpoonup> str) \<Rightarrow> str" where
  "inline_template m g = asc ''$'' @ group g 1 @ asc ''$''"

definition block_template :: "str \<Rightarrow> (nat \<rightharpoonup> str) \<Rightarrow> str" where
  "block_template m g = asc ''$$'' @ group g 1 @ asc ''$$''"

definition LatexExpertAgent_process ::
    "chartab \<Rightarrow> remote \<Rightarrow> agent \<Rightarrow> structured \<Rightarrow> world \<Rightarrow> latexed \<times> world" where
  "LatexExpertAgent_process tab remote a structured_data w =
     (if has_math structured_data then
        (case process_with_gemini remote a
                (latex_request (structured_content structured_data)) w of
           (Inr latex_improved, w') \<Rightarrow>
             (\<lparr>content = latex_improved @ math_notice, latex_processed = True\<rparr>, w')
         | (Inl e, w') \<Rightarrow>
             (\<lparr>content =
                  re_sub tab latex_block_pattern block_template
                    (re_sub tab latex_inline_pattern inline_template
                       (structured_content structured_data)) @ math_notice,
               latex_processed = True\<rparr>, w'))
      else (\<lparr>content = structured_content structured_data, latex_processed = False\<rparr>, w))"

subsection \<open>Agent 4: \<open>ObsidianFormatterAgent\<close>\<close>

text \<open>
  The last step of \<open>process\<close>. \<open>clock\<close> is what \<open>time.strftime('%Y-%m-%d')\<close> returns. The
  module binds the name \<open>time\<close> only in its \<open>if __name__ == "__main__"\<close> block, so for a
  caller that imports the module the name is unbound and evaluating the expression
  raises \<open>NameError\<close>: that is \<open>clock = None\<close>.
\<close>

definition ensure_metadata :: "str option \<Rightarrow> str \<Rightarrow> error + str" where
  "ensure_metadata clock final_content =
     (if \<not> startswith final_content header_marker
      then (case clock of
              None \<Rightarrow> Inl NameError
            | Some today \<Rightarrow> Inr (metadata_header today @ final_content))
      else Inr final_content)"

text \<open>The \<open>except\<close> branch: the note, with the fixed tag block when the guard allows it.\<close>

definition with_fallback_tags :: "chartab \<Rightarrow> latexed \<Rightarrow> str" where
  "with_fallback_tags tab latex_data =
     (if latex_processed latex_data \<and>
         \<not> contains tags_marker (str_lower tab (content latex_data))
      then content latex_data @ fallback_tags
      else content latex_data)"

definition ObsidianFormatterAgent_process ::
    "chartab \<Rightarrow> str option \<Rightarrow> remote \<Rightarrow> agent \<Rightarrow> latexed \<Rightarrow> world \<Rightarrow> (error + str) \<times> world" where
  "ObsidianFormatterAgent_process tab clock remote a latex_data w =
     (case process_with_gemini remote a (review_request (content latex_data)) w of
        (Inr final_review, w') \<Rightarrow> (ensure_metadata clock final_review, w')
      | (Inl e, w') \<Rightarrow> (ensure_metadata clock (with_fallback_tags tab latex_data), w'))"

subsection \<open>The pipeline\<close>

definition default_model_names :: "str \<rightharpoonup> str" where
  "default_model_names =
     [key_TranscriberExtractorAgent \<mapsto> gemini_pro,
      key_StructurerVisualizerAgent \<mapsto> gemini_pro,
      key_LatexExpertAgent \<mapsto> gemini_pro,
      key_ObsidianFormatterAgent \<mapsto> gemini_pro]"

text \<open>
  The stages, as the source announces them before it runs each. The result of the
  pipeline is the note or the exception that left it, with the stages that were started.
\<close>

datatype stage = Extractor | Structurer | MathFormatter | FinalFormatter

text \<open>The four agents, each with the model name the dictionary gives for its class.\<close>

definition transcriber_agent :: "(str \<rightharpoonup> str) \<Rightarrow> agent" where
  "transcriber_agent names =
     \<lparr>agent_name = transcriber_name, agent_prompt = transcriber_prompt,
      agent_model = names key_TranscriberExtractorAgent\<rparr>"

definition structurer_agent :: "(str \<rightharpoonup> str) \<Rightarrow> agent" where
  "structurer_agent names =
     \<lparr>agent_name = structurer_name, agent_prompt = structurer_prompt,
      agent_model = names key_StructurerVisualizerAgent\<rparr>"

definition latex_agent :: "(str \<rightharpoonup> str) \<Rightarrow> agent" where
  "latex_agent names =
     \<lparr>agent_name = latex_name, agent_prompt = latex_prompt,
      agent_model = names key_LatexExpertAgent\<rparr>"

definition formatter_agent :: "(str \<rightharpoonup> str) \<Rightarrow> agent" where
  "formatter_agent names =
     \<lparr>agent_name = formatter_name, agent_prompt = formatter_prompt,
      agent_model = names key_ObsidianFormatterAgent\<rparr>"

text \<open>The \<open>try\<close> block: the four stages in order on the shared manager.\<close>

definition run_stages ::
    "chartab \<Rightarrow> str option \<Rightarrow> remote \<Rightarrow> (str \<rightharpoonup> str) \<Rightarrow> str \<Rightarrow> pool \<Rightarrow> (error + str) \<times> stage list" where
  "run_stages tab clock remote names raw_content api_manager =
     (let w0 = \<lparr>manager = api_manager, attempts = []\<rparr>;
          r1 = TranscriberExtractorAgent_process tab remote (transcriber_agent names) raw_content w0;
          r2 = StructurerVisualizerAgent_process tab remote (structurer_agent names) (fst r1) (snd r1);
          r3 = LatexExpertAgent_process tab remote (latex_agent names) (fst r2) (snd r2);
          r4 = ObsidianFormatterAgent_process tab clock remote (formatter_agent names) (fst r3) (snd r3)
      in (fst r4, [Extractor, Structurer, MathFormatter, FinalFormatter]))"

text \<open>
  \<open>process_content_with_enhanced_agents\<close>: the manager is built before the \<open>try\<close>
  block, so the \<open>ValueError\<close> of an empty key list leaves the function before any stage.
\<close>

definition process_content_with_enhanced_agents ::
    "chartab \<Rightarrow> str option \<Rightarrow> remote \<Rightarrow> str \<Rightarrow> str list \<Rightarrow> (str \<rightharpoonup> str) option
       \<Rightarrow> (error + str) \<times> stage list" where
  "process_content_with_enhanced_agents tab clock remote raw_content keys model_names =
     (let names = (case model_names of None \<Rightarrow> default_model_names | Some m \<Rightarrow> m)
      in case GeminiAPIManager_init keys of
           Inl e \<Rightarrow> (Inl e, [])
         | Inr api_manager \<Rightarrow> run_stages tab clock remote names raw_content api_manager)"

section \<open>Properties of the credential pool\<close>

lemma get_next_key_api_keys: "api_keys (snd (get_next_key p)) = api_keys p"
  by (simp add: get_next_key_def Let_def)

lemma mark_key_failed_api_keys: "api_keys (mark_key_failed key p) = api_keys p"
  by (simp add: mark_key_failed_def Let_def)

lemma exec_op_api_keys: "api_keys (exec_op x p) = api_keys p"
  by (cases x) (simp_all add: get_next_key_api_keys mark_key_failed_api_keys get_status_def)

lemma run_ops_api_keys: "api_keys (run_ops xs p) = api_keys p"
  by (induction xs arbitrary: p) (simp_all add: exec_op_api_keys)

lemma available_keys_subset: "set (available_keys p) \<subseteq> set (api_keys p)"
  by (auto simp: available_keys_def)

text \<open>
  C1. On a manager whose key list is not empty, \<open>get_next_key\<close> returns a key of the
  list, never \<open>None\<close>. When no key is available (every key of the list is in
  \<open>failed_keys\<close>) the call empties \<open>failed_keys\<close> and \<open>retry_count\<close> and returns the
  key of the whole list that the index selects. Every manager built by \<open>__init__\<close> has
  a non-empty list, and no operation changes the list.
\<close>

theorem get_next_key_never_none:
  assumes "api_keys p \<noteq> []"
  shows "(\<exists>key. fst (get_next_key p) = Some key \<and> key \<in> set (api_keys p)) \<and>
         (set (api_keys p) \<subseteq> failed_keys p \<longrightarrow>
            failed_keys (snd (get_next_key p)) = {} \<and>
            retry_count (snd (get_next_key p)) = Map.empty \<and>
            available_keys (snd (get_next_key p)) = api_keys p \<and>
            fst (get_next_key p) =
              Some (api_keys p ! (current_key_index p mod length (api_keys p)))) \<and>
         (\<forall>keys p0 ops. GeminiAPIManager_init keys = Inr p0 \<longrightarrow>
            fst (get_next_key (run_ops ops p0)) \<noteq> None)"
proof (intro conjI)
  show "\<exists>key. fst (get_next_key p) = Some key \<and> key \<in> set (api_keys p)"
  proof (cases "available_keys p = []")
    case True
    with assms show ?thesis
      by (simp add: get_next_key_def Let_def)
  next
    case False
    then have "available_keys p ! (current_key_index p mod length (available_keys p))
                 \<in> set (available_keys p)"
      by simp
    with False available_keys_subset [of p] show ?thesis
      by (auto simp: get_next_key_def Let_def)
  qed
next
  show "set (api_keys p) \<subseteq> failed_keys p \<longrightarrow>
            failed_keys (snd (get_next_key p)) = {} \<and>
            retry_count (snd (get_next_key p)) = Map.empty \<and>
            available_keys (snd (get_next_key p)) = api_keys p \<and>
            fst (get_next_key p) =
              Some (api_keys p ! (current_key_index p mod length (api_keys p)))"
  proof
    assume "set (api_keys p) \<subseteq> failed_keys p"
    then have "available_keys p = []"
      by (auto simp: available_keys_def filter_empty_conv)
    with assms show "failed_keys (snd (get_next_key p)) = {} \<and>
            retry_count (snd (get_next_key p)) = Map.empty \<and>
            available_keys (snd (get_next_key p)) = api_keys p \<and>
            fst (get_next_key p) =
              Some (api_keys p ! (current_key_index p mod length (api_keys p)))"
      by (simp add: get_next_key_def Let_def available_keys_def)
  qed
next
  show "\<forall>keys p0 ops. GeminiAPIManager_init keys = Inr p0 \<longrightarrow>
            fst (get_next_key (run_ops ops p0)) \<noteq> None"
  proof (intro allI impI)
    fix keys p0 ops
    assume "GeminiAPIManager_init keys = Inr p0"
    then have "api_keys p0 \<noteq> []"
      by (auto simp: GeminiAPIManager_init_def new_pool_def split: if_splits)
    then have ne: "api_keys (run_ops ops p0) \<noteq> []"
      by (simp add: run_ops_api_keys)
    show "fst (get_next_key (run_ops ops p0)) \<noteq> None"
    proof (cases "available_keys (run_ops ops p0) = []")
      case True
      with ne show ?thesis by (simp add: get_next_key_def Let_def)
    next
      case False
      then show ?thesis by (simp add: get_next_key_def Let_def)
    qed
  qed
qed

theorem get_next_key_never_none_witness:
  "api_keys (run_ops [MarkKeyFailed [97], MarkKeyFailed [97], MarkKeyFailed [97]] (new_pool [[97], [97]])) \<noteq> [] \<and>
   set (api_keys (run_ops [MarkKeyFailed [97], MarkKeyFailed [97], MarkKeyFailed [97]] (new_pool [[97], [97]])))
     \<subseteq> failed_keys (run_ops [MarkKeyFailed [97], MarkKeyFailed [97], MarkKeyFailed [97]] (new_pool [[97], [97]])) \<and>
   GeminiAPIManager_init [[97], [97]] = Inr (new_pool [[97], [97]]) \<and>
   fst (get_next_key (run_ops [MarkKeyFailed [97], MarkKeyFailed [97], MarkKeyFailed [97]] (new_pool [[97], [97]])))
     = Some [97]"
proof -
  let ?p = "run_ops [MarkKeyFailed [97], MarkKeyFailed [97], MarkKeyFailed [97]] (new_pool [[97], [97]])"
  have h1: "api_keys ?p \<noteq> []"
    by (simp add: new_pool_def mark_key_failed_def counter_def)
  have h2: "set (api_keys ?p) \<subseteq> failed_keys ?p"
    by (simp add: new_pool_def mark_key_failed_def counter_def)
  have h3: "GeminiAPIManager_init [[97], [97]] = Inr (new_pool [[97], [97]])"
    by (simp add: GeminiAPIManager_init_def)
  have k: "api_keys ?p = [[97], [97]]"
    by (simp add: new_pool_def mark_key_failed_def counter_def)
  from get_next_key_never_none [OF h1] h2 h3 have
    "fst (get_next_key ?p) = Some (api_keys ?p ! (current_key_index ?p mod length (api_keys ?p)))"
    and "fst (get_next_key (run_ops [MarkKeyFailed [97], MarkKeyFailed [97], MarkKeyFailed [97]] (new_pool [[97], [97]]))) \<noteq> None"
    by blast+
  then have "fst (get_next_key ?p) = Some [97]"
    by (simp add: k new_pool_def mark_key_failed_def counter_def)
  with h1 h2 h3 show ?thesis by blast
qed

lemma next_keys_rotation:
  assumes "failed_keys p = {}" and "current_key_index p < length (api_keys p)"
    and "current_key_index p + n \<le> length (api_keys p)"
  shows "next_keys n p =
           (map Some (take n (drop (current_key_index p) (api_keys p))),
            p\<lparr>current_key_index := (current_key_index p + n) mod length (api_keys p)\<rparr>)"
  using assms
proof (induction n arbitrary: p)
  case 0
  then show ?case by simp
next
  case (Suc n)
  let ?k = "length (api_keys p)" and ?i = "current_key_index p"
  from Suc.prems have av: "available_keys p = api_keys p"
    by (simp add: available_keys_def)
  from Suc.prems have ne: "api_keys p \<noteq> []" by auto
  have step: "get_next_key p = (Some (api_keys p ! ?i), p\<lparr>current_key_index := (?i + 1) mod ?k\<rparr>)"
    using Suc.prems(2) ne by (simp add: get_next_key_def Let_def av)
  show ?case
  proof (cases "?i + 1 < ?k")
    case True
    let ?p1 = "p\<lparr>current_key_index := ?i + 1\<rparr>"
    have "next_keys n ?p1 =
           (map Some (take n (drop (current_key_index ?p1) (api_keys ?p1))),
            ?p1\<lparr>current_key_index := (current_key_index ?p1 + n) mod length (api_keys ?p1)\<rparr>)"
      using Suc.prems True by (intro Suc.IH) simp_all
    moreover have "take (Suc n) (drop ?i (api_keys p)) = api_keys p ! ?i # take n (drop (Suc ?i) (api_keys p))"
      using Suc.prems(2) by (simp add: Cons_nth_drop_Suc [symmetric])
    ultimately show ?thesis
      using True by (simp add: step)
  next
    case False
    with Suc.prems have n0: "n = 0" and last: "?i + 1 = ?k" by auto
    have "take (Suc 0) (drop ?i (api_keys p)) = [api_keys p ! ?i]"
      using Suc.prems(2) by (simp add: Cons_nth_drop_Suc [symmetric])
    then show ?thesis
      using n0 last by (simp add: step)
  qed
qed

text \<open>
  C3. From the state \<open>__init__\<close> builds, and with no call of \<open>mark_key_failed\<close>, as many
  calls of \<open>get_next_key\<close> as there are keys return the keys of the list, each position
  once and in list order, and leave the manager in the state it started from: the next
  round returns the same sequence.
\<close>

theorem rotation_fairness:
  assumes "GeminiAPIManager_init keys = Inr p0"
  shows "next_keys (length keys) p0 = (map Some keys, p0) \<and>
         next_keys (length keys) (snd (next_keys (length keys) p0)) = (map Some keys, p0)"
proof -
  from assms have ne: "keys \<noteq> []" and p0: "p0 = new_pool keys"
    by (auto simp: GeminiAPIManager_init_def split: if_splits)
  have "next_keys (length keys) p0 =
           (map Some (take (length keys) (drop (current_key_index p0) (api_keys p0))),
            p0\<lparr>current_key_index := (current_key_index p0 + length keys) mod length (api_keys p0)\<rparr>)"
    using ne by (intro next_keys_rotation) (simp_all add: p0 new_pool_def)
  then have "next_keys (length keys) p0 = (map Some keys, p0)"
    by (simp add: p0 new_pool_def)
  then show ?thesis by simp
qed

theorem rotation_fairness_witness:
  "GeminiAPIManager_init [[97], [98], [97]] = Inr (new_pool [[97], [98], [97]]) \<and>
   next_keys 3 (new_pool [[97], [98], [97]]) = ([Some [97], Some [98], Some [97]], new_pool [[97], [98], [97]])"
proof -
  have h: "GeminiAPIManager_init [[97], [98], [97]] = Inr (new_pool [[97], [98], [97]])"
    by (simp add: GeminiAPIManager_init_def)
  from rotation_fairness [OF h] h show ?thesis
    by (simp del: next_keys.simps add: numeral_3_eq_3)
qed

lemma counter_mark: "counter (mark_key_failed key p) key' = (if key' = key then counter p key + 1 else counter p key')"
  by (simp add: mark_key_failed_def counter_def Let_def)

lemma failed_mark: "failed_keys (mark_key_failed key p) =
   (if counter p key + 1 \<ge> max_retries p then insert key (failed_keys p) else failed_keys p)"
  by (simp add: mark_key_failed_def counter_def Let_def)

lemma max_retries_mark: "max_retries (mark_key_failed key p) = max_retries p"
  by (simp add: mark_key_failed_def Let_def)

lemma index_mark: "current_key_index (mark_key_failed key p) = current_key_index p"
  by (simp add: mark_key_failed_def Let_def)

lemma quarantine_inv_mark: "quarantine_inv p \<Longrightarrow> quarantine_inv (mark_key_failed key p)"
  by (auto simp: quarantine_inv_def counter_mark failed_mark max_retries_mark)

lemma quarantine_inv_next: "quarantine_inv p \<Longrightarrow> quarantine_inv (snd (get_next_key p))"
  by (auto simp: quarantine_inv_def get_next_key_def Let_def counter_def)

lemma quarantine_inv_exec: "quarantine_inv p \<Longrightarrow> quarantine_inv (exec_op x p)"
  by (cases x) (simp_all add: quarantine_inv_mark quarantine_inv_next get_status_def)

lemma quarantine_inv_run: "quarantine_inv p \<Longrightarrow> quarantine_inv (run_ops xs p)"
  by (induction xs arbitrary: p) (simp_all add: quarantine_inv_exec)

lemma quarantine_inv_new: "quarantine_inv (new_pool keys)"
  by (simp add: quarantine_inv_def new_pool_def)

text \<open>
  C4. \<open>mark_key_failed\<close> adds exactly one to the counter of its key and leaves the other
  counters alone; in a state that satisfies the invariant, the key is in \<open>failed_keys\<close>
  afterwards exactly when its new counter has reached \<open>max_retries\<close>, which \<open>__init__\<close>
  sets to 3. The invariant (every key in \<open>failed_keys\<close> has a counter of at least
  \<open>max_retries\<close>) holds in the state \<open>__init__\<close> builds, with all counters 0 and nothing
  quarantined, and \<open>get_next_key\<close> (with its reset), \<open>mark_key_failed\<close> and \<open>get_status\<close>
  keep it.
\<close>

theorem mark_key_failed_quarantine:
  "counter (mark_key_failed key p) key = counter p key + 1 \<and>
   (\<forall>key'. key' \<noteq> key \<longrightarrow> counter (mark_key_failed key p) key' = counter p key') \<and>
   (quarantine_inv p \<longrightarrow>
      (key \<in> failed_keys (mark_key_failed key p) \<longleftrightarrow>
         counter (mark_key_failed key p) key \<ge> max_retries p)) \<and>
   (GeminiAPIManager_init keys = Inr p0 \<longrightarrow>
      max_retries p0 = 3 \<and> failed_keys p0 = {} \<and> (\<forall>key'. counter p0 key' = 0) \<and>
      quarantine_inv p0 \<and> (\<forall>ops. quarantine_inv (run_ops ops p0))) \<and>
   (quarantine_inv p \<longrightarrow> quarantine_inv (exec_op x p))"
proof (intro conjI allI impI)
  show "counter (mark_key_failed key p) key = counter p key + 1"
    by (simp add: counter_mark)
next
  fix key' assume "key' \<noteq> key"
  then show "counter (mark_key_failed key p) key' = counter p key'"
    by (simp add: counter_mark)
next
  assume "quarantine_inv p"
  then show "key \<in> failed_keys (mark_key_failed key p) \<longleftrightarrow>
         counter (mark_key_failed key p) key \<ge> max_retries p"
    by (auto simp: quarantine_inv_def counter_mark failed_mark)
next
  assume "quarantine_inv p"
  then show "quarantine_inv (exec_op x p)" by (rule quarantine_inv_exec)
next
  fix ops
  assume "GeminiAPIManager_init keys = Inr p0"
  then have "p0 = new_pool keys"
    by (auto simp: GeminiAPIManager_init_def split: if_splits)
  then show "quarantine_inv (run_ops ops p0)"
    by (simp add: quarantine_inv_run quarantine_inv_new)
qed (auto simp: GeminiAPIManager_init_def new_pool_def counter_def quarantine_inv_def split: if_splits)

theorem mark_key_failed_quarantine_witness:
  "quarantine_inv (new_pool [[97]]) \<and>
   GeminiAPIManager_init [[97]] = Inr (new_pool [[97]]) \<and>
   [98] \<noteq> [97::nat] \<and>
   counter (mark_key_failed [97] (new_pool [[97]])) [97] = 1 \<and>
   counter (mark_key_failed [97] (new_pool [[97]])) [98] = 0 \<and>
   [97] \<notin> failed_keys (mark_key_failed [97] (new_pool [[97]])) \<and>
   quarantine_inv (run_ops [MarkKeyFailed [97], MarkKeyFailed [97], MarkKeyFailed [97]] (new_pool [[97]])) \<and>
   quarantine_inv (exec_op GetNextKey (new_pool [[97]]))"
proof -
  have h1: "quarantine_inv (new_pool [[97]])"
    by (simp add: quarantine_inv_def new_pool_def)
  have h2: "GeminiAPIManager_init [[97]] = Inr (new_pool [[97]])"
    by (simp add: GeminiAPIManager_init_def)
  have h3: "[98] \<noteq> [97::nat]" by simp
  have c0: "counter (new_pool [[97]]) k = 0" for k
    by (simp add: counter_def new_pool_def)
  have m: "max_retries (new_pool [[97]]) = 3"
    by (simp add: new_pool_def)
  from mark_key_failed_quarantine [of "[97]" "new_pool [[97]]" "[[97]]" "new_pool [[97]]" GetNextKey] h1 h2 h3
  show ?thesis
    by (simp add: c0 m del: run_ops.simps exec_op.simps)
qed

text \<open>
  C6 as stated fails: \<open>mark_key_failed\<close> does not touch the index, so when it quarantines
  a key the available list shrinks under the index. With two keys, one lookup and three
  failures of the first key leave the index at 1 and one available key.
\<close>

theorem cursor_inv_counterexample:
  "GeminiAPIManager_init [[97], [98]] = Inr (new_pool [[97], [98]]) \<and>
   cursor_inv (new_pool [[97], [98]]) \<and>
   cursor_inv (run_ops [GetNextKey, MarkKeyFailed [97], MarkKeyFailed [97]] (new_pool [[97], [98]])) \<and>
   \<not> cursor_inv (run_ops [GetNextKey, MarkKeyFailed [97], MarkKeyFailed [97], MarkKeyFailed [97]]
                   (new_pool [[97], [98]]))"
  by (simp add: GeminiAPIManager_init_def new_pool_def cursor_inv_def available_keys_def
      get_next_key_def mark_key_failed_def counter_def Let_def)

lemma cursor_inv_next:
  assumes "api_keys p \<noteq> []"
  shows "cursor_inv (snd (get_next_key p))"
proof (cases "available_keys p = []")
  case True
  with assms show ?thesis
    by (simp add: get_next_key_def Let_def cursor_inv_def available_keys_def less_max_iff_disj)
next
  case False
  then have "available_keys (snd (get_next_key p)) = available_keys p"
    by (simp add: get_next_key_def Let_def available_keys_def)
  moreover from False have "current_key_index (snd (get_next_key p)) < length (available_keys p)"
    by (simp add: get_next_key_def Let_def)
  ultimately show ?thesis
    by (simp add: cursor_inv_def)
qed

lemma length_available_keys: "length (available_keys p) \<le> length (api_keys p)"
  by (simp add: available_keys_def)

lemma index_bound_next:
  assumes "current_key_index p < length (api_keys p)"
  shows "current_key_index (snd (get_next_key p)) < length (api_keys p)"
proof -
  from assms have ne: "api_keys p \<noteq> []" by auto
  then have "cursor_inv (snd (get_next_key p))" by (rule cursor_inv_next)
  moreover have "length (available_keys (snd (get_next_key p))) \<le> length (api_keys p)"
    using length_available_keys [of "snd (get_next_key p)"] by (simp add: get_next_key_api_keys)
  ultimately show ?thesis
    using ne by (auto simp: cursor_inv_def max_def split: if_splits)
qed

lemma index_bound_exec:
  "current_key_index p < length (api_keys p) \<Longrightarrow>
   current_key_index (exec_op x p) < length (api_keys (exec_op x p))"
  by (cases x) (simp_all add: index_bound_next get_next_key_api_keys index_mark
      mark_key_failed_api_keys get_status_def)

lemma index_bound_run:
  "current_key_index p < length (api_keys p) \<Longrightarrow>
   current_key_index (run_ops xs p) < length (api_keys (run_ops xs p))"
  by (induction xs arbitrary: p) (simp_all add: index_bound_exec)

text \<open>
  C6, amended. The bound \<open>current_key_index < max 1 (len available)\<close> holds in the state
  \<open>__init__\<close> builds and after every \<open>get_next_key\<close> on a non-empty key list;
  \<open>mark_key_failed\<close> and \<open>get_status\<close> leave the index as it is, so in every reachable
  state the index is below the length of the whole key list; \<open>get_next_key\<close> reduces the
  index modulo the length of the list it selects from before it uses it.
\<close>

theorem cursor_bound:
  "(GeminiAPIManager_init keys = Inr p0 \<longrightarrow>
      cursor_inv p0 \<and> (\<forall>ops. current_key_index (run_ops ops p0) < length keys)) \<and>
   (api_keys p \<noteq> [] \<longrightarrow> cursor_inv (snd (get_next_key p))) \<and>
   current_key_index (mark_key_failed key p) = current_key_index p \<and>
   current_key_index (snd (get_status p)) = current_key_index p \<and>
   (api_keys p \<noteq> [] \<longrightarrow>
      fst (get_next_key p) =
        Some ((if available_keys p = [] then api_keys p else available_keys p) !
              (current_key_index p mod
               length (if available_keys p = [] then api_keys p else available_keys p))))"
proof (intro conjI impI)
  assume i: "GeminiAPIManager_init keys = Inr p0"
  then have p0: "p0 = new_pool keys" and ne: "keys \<noteq> []"
    by (auto simp: GeminiAPIManager_init_def split: if_splits)
  show "cursor_inv p0"
    by (simp add: p0 cursor_inv_def new_pool_def)
  have "current_key_index p0 < length (api_keys p0)"
    using ne by (simp add: p0 new_pool_def)
  then have "current_key_index (run_ops ops p0) < length (api_keys (run_ops ops p0))" for ops
    by (rule index_bound_run)
  then show "\<forall>ops. current_key_index (run_ops ops p0) < length keys"
    by (simp add: run_ops_api_keys p0 new_pool_def)
next
  assume "api_keys p \<noteq> []"
  then show "cursor_inv (snd (get_next_key p))" by (rule cursor_inv_next)
next
  show "current_key_index (mark_key_failed key p) = current_key_index p"
    by (rule index_mark)
next
  show "current_key_index (snd (get_status p)) = current_key_index p"
    by (simp add: get_status_def)
next
  assume "api_keys p \<noteq> []"
  then show "fst (get_next_key p) =
        Some ((if available_keys p = [] then api_keys p else available_keys p) !
              (current_key_index p mod
               length (if available_keys p = [] then api_keys p else available_keys p)))"
    by (simp add: get_next_key_def Let_def)
qed

theorem cursor_bound_witness:
  "GeminiAPIManager_init [[97], [98]] = Inr (new_pool [[97], [98]]) \<and>
   api_keys (run_ops [GetNextKey, MarkKeyFailed [97], MarkKeyFailed [97], MarkKeyFailed [97]]
               (new_pool [[97], [98]])) \<noteq> [] \<and>
   current_key_index (run_ops [GetNextKey, MarkKeyFailed [97], MarkKeyFailed [97], MarkKeyFailed [97]]
               (new_pool [[97], [98]])) < 2 \<and>
   cursor_inv (snd (get_next_key (run_ops [GetNextKey, MarkKeyFailed [97], MarkKeyFailed [97], MarkKeyFailed [97]]
               (new_pool [[97], [98]])))) \<and>
   fst (get_next_key (run_ops [GetNextKey, MarkKeyFailed [97], MarkKeyFailed [97], MarkKeyFailed [97]]
               (new_pool [[97], [98]]))) = Some [98]"
proof -
  let ?ops = "[GetNextKey, MarkKeyFailed [97], MarkKeyFailed [97], MarkKeyFailed [97]]"
  let ?p = "run_ops ?ops (new_pool [[97], [98]])"
  have h1: "GeminiAPIManager_init [[97], [98]] = Inr (new_pool [[97], [98]])"
    by (simp add: GeminiAPIManager_init_def)
  have h2: "api_keys ?p \<noteq> []"
    by (simp add: run_ops_api_keys new_pool_def del: run_ops.simps)
  have av: "available_keys ?p = [[98]]" and ix: "current_key_index ?p = 1"
    by (simp_all add: new_pool_def available_keys_def get_next_key_def mark_key_failed_def
        counter_def Let_def)
  from cursor_bound [of "[[97], [98]]" "new_pool [[97], [98]]" ?p] h1 h2
  have "current_key_index ?p < length [[97::nat], [98]]"
    and "cursor_inv (snd (get_next_key ?p))"
    and "fst (get_next_key ?p) =
        Some ((if available_keys ?p = [] then api_keys ?p else available_keys ?p) !
              (current_key_index ?p mod
               length (if available_keys ?p = [] then api_keys ?p else available_keys ?p)))"
    by blast+
  then show ?thesis
    using h1 h2 by (simp add: av ix del: run_ops.simps)
qed

text \<open>
  C9 as stated fails: counters and quarantine are indexed by the content of a key. With
  the same key at both positions, one failure reported for the key at position 0 is
  counted for position 1 as well, and three failures remove both positions from the
  rotation.
\<close>

theorem duplicate_slots_counterexample:
  "api_keys (new_pool [[97], [97]]) ! 0 = api_keys (new_pool [[97], [97]]) ! 1 \<and>
   length (available_keys (new_pool [[97], [97]])) = 2 \<and>
   counter (mark_key_failed (api_keys (new_pool [[97], [97]]) ! 0) (new_pool [[97], [97]]))
     (api_keys (new_pool [[97], [97]]) ! 1) = 1 \<and>
   available_keys (run_ops [MarkKeyFailed [97], MarkKeyFailed [97], MarkKeyFailed [97]]
                     (new_pool [[97], [97]])) = []"
  by (simp add: new_pool_def available_keys_def mark_key_failed_def counter_def Let_def)

lemma length_filter_neq: "length (filter (\<lambda>k. k \<noteq> key) xs) + count_list xs key = length xs"
  by (induction xs) simp_all

lemma count_list_filter_other:
  "other \<noteq> key \<Longrightarrow>
   count_list (filter (\<lambda>k. k \<noteq> key \<and> P k) xs) other = count_list (filter P xs) other"
  by (induction xs) simp_all

text \<open>
  C9, amended. Entries with equal content share one counter and one quarantine flag:
  \<open>mark_key_failed\<close> adds one to the counter of that content, and once the content is
  quarantined every occurrence of it is out of the available list at once (the list
  loses exactly the occurrences of that key). Keys of different content keep their
  counters, their quarantine state and their occurrences in the available list.
\<close>

theorem duplicate_keys_share_state:
  "counter (mark_key_failed key p) key = counter p key + 1 \<and>
   (key \<in> failed_keys (mark_key_failed key p) \<longrightarrow>
      key \<notin> set (available_keys (mark_key_failed key p)) \<and>
      length (available_keys (mark_key_failed key p)) + count_list (available_keys p) key
        = length (available_keys p)) \<and>
   (\<forall>other. other \<noteq> key \<longrightarrow>
      counter (mark_key_failed key p) other = counter p other \<and>
      (other \<in> failed_keys (mark_key_failed key p) \<longleftrightarrow> other \<in> failed_keys p) \<and>
      count_list (available_keys (mark_key_failed key p)) other
        = count_list (available_keys p) other)"
proof (intro conjI impI allI)
  show "counter (mark_key_failed key p) key = counter p key + 1"
    by (simp add: counter_mark)
next
  assume q: "key \<in> failed_keys (mark_key_failed key p)"
  then show "key \<notin> set (available_keys (mark_key_failed key p))"
    by (simp add: available_keys_def)
  from q have "failed_keys (mark_key_failed key p) = insert key (failed_keys p)"
    by (auto simp: failed_mark split: if_splits)
  then have "available_keys (mark_key_failed key p) = filter (\<lambda>k. k \<noteq> key) (available_keys p)"
    by (simp add: available_keys_def mark_key_failed_api_keys conj_commute)
  then show "length (available_keys (mark_key_failed key p)) + count_list (available_keys p) key
        = length (available_keys p)"
    by (simp add: length_filter_neq)
next
  fix other :: str
  assume "other \<noteq> key"
  then show "counter (mark_key_failed key p) other = counter p other"
    by (simp add: counter_mark)
  from \<open>other \<noteq> key\<close> show "other \<in> failed_keys (mark_key_failed key p) \<longleftrightarrow> other \<in> failed_keys p"
    by (simp add: failed_mark)
  from \<open>other \<noteq> key\<close> show "count_list (available_keys (mark_key_failed key p)) other
        = count_list (available_keys p) other"
    by (simp add: available_keys_def mark_key_failed_api_keys failed_mark count_list_filter_other)
qed

theorem duplicate_keys_share_state_witness:
  "[97] \<in> failed_keys (mark_key_failed [97]
      (run_ops [MarkKeyFailed [97], MarkKeyFailed [97]] (new_pool [[97], [98], [97]]))) \<and>
   [98] \<noteq> [97::nat] \<and>
   [97] \<notin> set (available_keys (mark_key_failed [97]
      (run_ops [MarkKeyFailed [97], MarkKeyFailed [97]] (new_pool [[97], [98], [97]])))) \<and>
   length (available_keys (mark_key_failed [97]
      (run_ops [MarkKeyFailed [97], MarkKeyFailed [97]] (new_pool [[97], [98], [97]])))) + 2 = 3 \<and>
   counter (mark_key_failed [97]
      (run_ops [MarkKeyFailed [97], MarkKeyFailed [97]] (new_pool [[97], [98], [97]]))) [98] = 0"
proof -
  let ?p = "run_ops [MarkKeyFailed [97], MarkKeyFailed [97]] (new_pool [[97], [98], [97]])"
  have h1: "[97] \<in> failed_keys (mark_key_failed [97] ?p)"
    by (simp add: new_pool_def mark_key_failed_def counter_def Let_def)
  have h2: "[98] \<noteq> [97::nat]" by simp
  have av: "available_keys ?p = [[97], [98], [97]]" and c: "counter ?p [98] = 0"
    by (simp_all add: new_pool_def available_keys_def mark_key_failed_def counter_def Let_def)
  from duplicate_keys_share_state [of "[97]" ?p] h1 h2
  have "[97] \<notin> set (available_keys (mark_key_failed [97] ?p))"
    and "length (available_keys (mark_key_failed [97] ?p)) + count_list (available_keys ?p) [97]
           = length (available_keys ?p)"
    and "counter (mark_key_failed [97] ?p) [98] = counter ?p [98]"
    by blast+
  then show ?thesis
    using h1 by (simp add: av c del: run_ops.simps)
qed


section \<open>Properties of the fallback loop\<close>

lemma always_fails_failing [simp]: "always_fails failing_remote"
  by (simp add: always_fails_def failing_remote_def)

lemma get_next_key_some:
  assumes "api_keys p \<noteq> []"
  obtains key where "fst (get_next_key p) = Some key" and "key \<in> set (api_keys p)"
proof (cases "available_keys p = []")
  case True
  with assms that show ?thesis
    by (simp add: get_next_key_def Let_def)
next
  case False
  then have "available_keys p ! (current_key_index p mod length (available_keys p))
               \<in> set (available_keys p)"
    by simp
  with available_keys_subset [of p]
  have "available_keys p ! (current_key_index p mod length (available_keys p)) \<in> set (api_keys p)"
    by blast
  moreover from False have "fst (get_next_key p)
      = Some (available_keys p ! (current_key_index p mod length (available_keys p)))"
    by (simp add: get_next_key_def Let_def)
  ultimately show ?thesis using that by blast
qed

lemma fallback_loop_all_fail:
  assumes "always_fails remote" and "api_keys (manager w) \<noteq> []" and "[] \<notin> set (api_keys (manager w))"
  shows "fst (fallback_loop remote prompt model_name n w) = None \<and>
         length (attempts (snd (fallback_loop remote prompt model_name n w))) = length (attempts w) + n \<and>
         api_keys (manager (snd (fallback_loop remote prompt model_name n w))) = api_keys (manager w)"
  using assms(2,3)
proof (induction n arbitrary: w)
  case 0
  then show ?case by simp
next
  case (Suc n)
  obtain key where k: "fst (get_next_key (manager w)) = Some key" and m: "key \<in> set (api_keys (manager w))"
    using Suc.prems(1) by (rule get_next_key_some)
  obtain p1 where g: "get_next_key (manager w) = (Some key, p1)"
    using k by (cases "get_next_key (manager w)") simp
  from m Suc.prems(2) have ne: "key \<noteq> []" by auto
  have p1: "api_keys p1 = api_keys (manager w)"
    using get_next_key_api_keys [of "manager w"] g by simp
  let ?w1 = "\<lparr>manager = mark_key_failed key p1, attempts = attempts w @ [(key, model_name, prompt)]\<rparr>"
  have r: "remote (length (attempts w)) key model_name prompt = None"
    using assms(1) by (simp add: always_fails_def)
  have step: "fallback_loop remote prompt model_name (Suc n) w = fallback_loop remote prompt model_name n ?w1"
    by (simp add: g ne r)
  have "api_keys (manager ?w1) \<noteq> []" "[] \<notin> set (api_keys (manager ?w1))"
    using Suc.prems by (simp_all add: mark_key_failed_api_keys p1)
  from Suc.IH [OF this] show ?case
    by (simp add: step mark_key_failed_api_keys p1 del: fallback_loop.simps)
qed

lemma mod_shift_neq:
  fixes c d K :: nat
  assumes "0 < d" and "d < K"
  shows "(c + d) mod K \<noteq> c mod K"
proof
  assume "(c + d) mod K = c mod K"
  then have "K dvd (c + d) - c"
    by (simp add: mod_eq_dvd_iff_nat)
  then have "K dvd d" by simp
  with assms show False
    by (auto dest: dvd_imp_le)
qed

lemma tried_mem: "api_keys p \<noteq> [] \<Longrightarrow> tried p j \<in> set (api_keys p)"
  by (simp add: tried_def)

lemma tried_inj:
  assumes "distinct (api_keys p)" and "i < j" and "j < length (api_keys p)"
  shows "tried p i \<noteq> tried p j"
proof -
  let ?K = "length (api_keys p)" and ?c = "current_key_index p"
  from assms have K: "0 < ?K" by auto
  have "(?c + i + (j - i)) mod ?K \<noteq> (?c + i) mod ?K"
    using assms by (intro mod_shift_neq) simp_all
  then have "(?c + j) mod ?K \<noteq> (?c + i) mod ?K"
    using assms(2) by simp
  then show ?thesis
    using assms(1) K by (simp add: tried_def nth_eq_iff_index_eq)
qed

lemma tried_rotate:
  assumes "j < length (api_keys p)"
  shows "tried p j = rotate (current_key_index p) (api_keys p) ! j"
  using assms by (simp add: tried_def nth_rotate)

lemma map_tried_rotate:
  "map (tried p) [0..<length (api_keys p)] = rotate (current_key_index p) (api_keys p)"
  by (rule nth_equalityI) (simp_all add: tried_rotate)

lemma get_next_key_all_available:
  assumes "failed_keys p = {}" and "api_keys p \<noteq> []"
  shows "get_next_key p =
           (Some (tried p 0),
            p\<lparr>current_key_index := (current_key_index p + 1) mod length (api_keys p)\<rparr>)"
  using assms by (simp add: get_next_key_def Let_def available_keys_def tried_def)

lemma counter_index_update [simp]: "counter (p\<lparr>current_key_index := i\<rparr>) key = counter p key"
  by (simp add: counter_def)

lemma fallback_loop_round:
  assumes fail: "always_fails remote"
    and d: "distinct (api_keys (manager w))"
    and ne: "[] \<notin> set (api_keys (manager w))"
    and f: "failed_keys (manager w) = {}"
    and n: "n \<le> length (api_keys (manager w))"
    and low: "\<forall>j<n. counter (manager w) (tried (manager w) j) + 1 < max_retries (manager w)"
  shows "failed_keys (manager (snd (fallback_loop remote prompt model_name n w))) = {} \<and>
         attempts (snd (fallback_loop remote prompt model_name n w))
           = attempts w @ map (\<lambda>j. (tried (manager w) j, model_name, prompt)) [0..<n] \<and>
         (\<forall>key. counter (manager (snd (fallback_loop remote prompt model_name n w))) key
            = counter (manager w) key + (if key \<in> tried (manager w) ` {..<n} then 1 else 0))"
  using d ne f n low
proof (induction n arbitrary: w)
  case 0
  then show ?case by simp
next
  case (Suc n)
  let ?p = "manager w"
  let ?K = "length (api_keys ?p)"
  let ?key = "tried ?p 0"
  let ?p1 = "?p\<lparr>current_key_index := (current_key_index ?p + 1) mod ?K\<rparr>"
  let ?m1 = "mark_key_failed ?key ?p1"
  let ?w1 = "\<lparr>manager = mark_key_failed ?key ?p1, attempts = attempts w @ [(?key, model_name, prompt)]\<rparr>"
  from Suc.prems(4) have K: "api_keys ?p \<noteq> []" by auto
  have g: "get_next_key ?p = (Some ?key, ?p1)"
    using Suc.prems(3) K by (rule get_next_key_all_available)
  have kne: "?key \<noteq> []"
    using tried_mem [OF K, of 0] Suc.prems(2) by auto
  have r: "remote (length (attempts w)) ?key model_name prompt = None"
    using fail by (simp add: always_fails_def)
  have step: "fallback_loop remote prompt model_name (Suc n) w
                = fallback_loop remote prompt model_name n ?w1"
    by (simp add: g kne r)
  have t1: "tried ?m1 j = tried ?p (Suc j)" for j
    by (simp add: tried_def mark_key_failed_api_keys index_mark mod_add_left_eq)
  have c1: "counter ?m1 key = (if key = ?key then counter ?p key + 1 else counter ?p key)" for key
    by (simp add: counter_mark)
  have low0: "counter ?p ?key + 1 < max_retries ?p"
    using Suc.prems(5) by simp
  have f1: "failed_keys ?m1 = {}"
    using low0 Suc.prems(3) by (simp add: failed_mark)
  have neq: "tried ?p (Suc j) \<noteq> ?key" if "j < n" for j
    using tried_inj [of ?p 0 "Suc j"] Suc.prems(1,4) that by simp
  have low1: "\<forall>j<n. counter ?m1 (tried ?m1 j) + 1 < max_retries ?m1"
  proof (intro allI impI)
    fix j assume j: "j < n"
    then have "counter ?p (tried ?p (Suc j)) + 1 < max_retries ?p"
      using Suc.prems(5) by simp
    then show "counter ?m1 (tried ?m1 j) + 1 < max_retries ?m1"
      using neq [OF j] by (simp only: t1 c1 max_retries_mark) simp
  qed
  have m1: "manager ?w1 = ?m1" and a1: "attempts ?w1 = attempts w @ [(?key, model_name, prompt)]"
    by simp_all
  have "failed_keys (manager (snd (fallback_loop remote prompt model_name n ?w1))) = {} \<and>
         attempts (snd (fallback_loop remote prompt model_name n ?w1))
           = attempts ?w1 @ map (\<lambda>j. (tried (manager ?w1) j, model_name, prompt)) [0..<n] \<and>
         (\<forall>key. counter (manager (snd (fallback_loop remote prompt model_name n ?w1))) key
            = counter (manager ?w1) key + (if key \<in> tried (manager ?w1) ` {..<n} then 1 else 0))"
    using Suc.prems f1 low1 by (intro Suc.IH) (simp_all add: mark_key_failed_api_keys)
  then have IH: "failed_keys (manager (snd (fallback_loop remote prompt model_name n ?w1))) = {} \<and>
         attempts (snd (fallback_loop remote prompt model_name n ?w1))
           = (attempts w @ [(?key, model_name, prompt)]) @ map (\<lambda>j. (tried ?m1 j, model_name, prompt)) [0..<n] \<and>
         (\<forall>key. counter (manager (snd (fallback_loop remote prompt model_name n ?w1))) key
            = counter ?m1 key + (if key \<in> tried ?m1 ` {..<n} then 1 else 0))"
    by simp
  have img: "tried ?p ` {..<Suc n} = insert ?key (tried ?m1 ` {..<n})"
  proof -
    have "{..<Suc n} = insert 0 (Suc ` {..<n})"
      by (auto simp: image_iff less_Suc_eq_0_disj)
    then have "tried ?p ` {..<Suc n} = insert ?key ((\<lambda>j. tried ?p (Suc j)) ` {..<n})"
      by (simp add: image_image)
    moreover have "tried ?m1 = (\<lambda>j. tried ?p (Suc j))"
      by (rule ext) (rule t1)
    ultimately show ?thesis
      by simp
  qed
  have notin: "?key \<notin> tried ?m1 ` {..<n}"
  proof
    assume "?key \<in> tried ?m1 ` {..<n}"
    then obtain j where "j < n" and "?key = tried ?m1 j" by auto
    with neq [of j] show False by (simp only: t1) simp
  qed
  show ?case
  proof (intro conjI allI)
    show "failed_keys (manager (snd (fallback_loop remote prompt model_name (Suc n) w))) = {}"
      using IH by (simp only: step)
    show "attempts (snd (fallback_loop remote prompt model_name (Suc n) w))
           = attempts w @ map (\<lambda>j. (tried ?p j, model_name, prompt)) [0..<Suc n]"
      using IH by (simp only: step map_upt_Suc t1) simp
    fix key
    show "counter (manager (snd (fallback_loop remote prompt model_name (Suc n) w))) key
            = counter ?p key + (if key \<in> tried ?p ` {..<Suc n} then 1 else 0)"
      using IH notin by (simp only: step img c1) auto
  qed
qed

text \<open>
  C2 as stated fails. (1) In a fresh manager over the five keys b, a, a, a, c the five
  attempts go to b, a, a, a, b: the third failure of a quarantines it, the index 4 is then
  taken modulo the two keys left, and c is never tried; its counter is not created.
  (2) With the distinct keys a, b, c and two earlier failures of b, the three attempts
  go to a, b, a, and c is never tried. (3) With the empty string as the only key,
  \<open>if not api_key\<close> leaves the loop before the first attempt.
\<close>

theorem fallback_counters_counterexample:
  "fst (generate_content_with_fallback failing_remote [112] None (Some 5)
          \<lparr>manager = new_pool [[98], [97], [97], [97], [99]], attempts = []\<rparr>) = None \<and>
   map fst (attempts (snd (generate_content_with_fallback failing_remote [112] None (Some 5)
          \<lparr>manager = new_pool [[98], [97], [97], [97], [99]], attempts = []\<rparr>)))
     = [[98], [97], [97], [97], [98]] \<and>
   retry_count (manager (snd (generate_content_with_fallback failing_remote [112] None (Some 5)
          \<lparr>manager = new_pool [[98], [97], [97], [97], [99]], attempts = []\<rparr>))) [99] = None \<and>
   distinct [[97], [98], [99::nat]] \<and>
   map fst (attempts (snd (generate_content_with_fallback failing_remote [112] None (Some 3)
          \<lparr>manager = run_ops [MarkKeyFailed [98], MarkKeyFailed [98]] (new_pool [[97], [98], [99]]),
           attempts = []\<rparr>)))
     = [[97], [98], [97]] \<and>
   retry_count (manager (snd (generate_content_with_fallback failing_remote [112] None (Some 3)
          \<lparr>manager = run_ops [MarkKeyFailed [98], MarkKeyFailed [98]] (new_pool [[97], [98], [99]]),
           attempts = []\<rparr>))) [99] = None \<and>
   attempts (snd (generate_content_with_fallback failing_remote [112] None (Some 1)
          \<lparr>manager = new_pool [[]], attempts = []\<rparr>)) = []"
  by code_simp

text \<open>
  C2, amended. On a manager with \<open>k \<ge> 1\<close> keys, none of them the empty string, and a
  remote service that fails on every attempt, \<open>generate_content_with_fallback\<close> with
  \<open>max_attempts = k\<close> returns \<open>None\<close> after exactly \<open>k\<close> attempts. If moreover the keys
  are distinct, none is quarantined and every counter is at least two below
  \<open>max_retries\<close> (as in a fresh manager), the attempts go to the keys in cyclic order
  from the index, each key once, and every key's counter is one higher than before: it
  is exactly 1 when it started at 0.
\<close>

theorem fallback_all_fail:
  assumes "always_fails remote"
    and "api_keys (manager w) \<noteq> []"
    and "[] \<notin> set (api_keys (manager w))"
  shows "fst (generate_content_with_fallback remote prompt model_name
                (Some (int (length (api_keys (manager w))))) w) = None \<and>
         length (attempts (snd (generate_content_with_fallback remote prompt model_name
                (Some (int (length (api_keys (manager w))))) w)))
           = length (attempts w) + length (api_keys (manager w)) \<and>
         (distinct (api_keys (manager w)) \<and> failed_keys (manager w) = {} \<and>
          (\<forall>key \<in> set (api_keys (manager w)).
              counter (manager w) key + 1 < max_retries (manager w)) \<longrightarrow>
            attempts (snd (generate_content_with_fallback remote prompt model_name
                (Some (int (length (api_keys (manager w))))) w))
              = attempts w @ map (\<lambda>key. (key, model_name, prompt))
                               (rotate (current_key_index (manager w)) (api_keys (manager w))) \<and>
            (\<forall>key \<in> set (api_keys (manager w)).
               counter (manager (snd (generate_content_with_fallback remote prompt model_name
                   (Some (int (length (api_keys (manager w))))) w))) key
                 = counter (manager w) key + 1))"
proof -
  let ?p = "manager w"
  let ?K = "length (api_keys ?p)"
  let ?r = "fallback_loop remote prompt model_name ?K w"
  have g: "generate_content_with_fallback remote prompt model_name (Some (int ?K)) w = ?r"
    by (simp add: generate_content_with_fallback_def)
  have a: "fst ?r = None \<and> length (attempts (snd ?r)) = length (attempts w) + ?K"
    using fallback_loop_all_fail [OF assms, of prompt model_name ?K] by simp
  have b: "attempts (snd ?r) = attempts w @ map (\<lambda>key. (key, model_name, prompt))
                               (rotate (current_key_index ?p) (api_keys ?p)) \<and>
           (\<forall>key \<in> set (api_keys ?p). counter (manager (snd ?r)) key = counter ?p key + 1)"
    if d: "distinct (api_keys ?p)" and f: "failed_keys ?p = {}"
      and low: "\<forall>key \<in> set (api_keys ?p). counter ?p key + 1 < max_retries ?p"
  proof -
    have low': "\<forall>j<?K. counter ?p (tried ?p j) + 1 < max_retries ?p"
      using low tried_mem [OF assms(2)] by blast
    have round: "attempts (snd ?r)
           = attempts w @ map (\<lambda>j. (tried ?p j, model_name, prompt)) [0..<?K] \<and>
         (\<forall>key. counter (manager (snd ?r)) key
            = counter ?p key + (if key \<in> tried ?p ` {..<?K} then 1 else 0))"
      using fallback_loop_round [OF assms(1) d assms(3) f order_refl low', of prompt model_name]
      by blast
    have "map (\<lambda>j. (tried ?p j, model_name, prompt)) [0..<?K]
            = map (\<lambda>key. (key, model_name, prompt)) (map (tried ?p) [0..<?K])"
      by simp
    also have "\<dots> = map (\<lambda>key. (key, model_name, prompt)) (rotate (current_key_index ?p) (api_keys ?p))"
      by (simp only: map_tried_rotate)
    finally have m: "map (\<lambda>j. (tried ?p j, model_name, prompt)) [0..<?K]
            = map (\<lambda>key. (key, model_name, prompt)) (rotate (current_key_index ?p) (api_keys ?p))" .
    have "tried ?p ` {..<?K} = set (map (tried ?p) [0..<?K])"
      by (simp add: atLeast0LessThan)
    also have "\<dots> = set (api_keys ?p)"
      by (simp only: map_tried_rotate set_rotate)
    finally have img: "tried ?p ` {..<?K} = set (api_keys ?p)" .
    from round show ?thesis
      by (simp only: m img) simp
  qed
  from a b show ?thesis
    by (simp only: g) blast
qed

theorem fallback_all_fail_witness:
  "always_fails failing_remote \<and>
   api_keys (manager \<lparr>manager = new_pool [[97], [98]], attempts = []\<rparr>) \<noteq> [] \<and>
   [] \<notin> set (api_keys (manager \<lparr>manager = new_pool [[97], [98]], attempts = []\<rparr>)) \<and>
   distinct (api_keys (manager \<lparr>manager = new_pool [[97], [98]], attempts = []\<rparr>)) \<and>
   failed_keys (manager \<lparr>manager = new_pool [[97], [98]], attempts = []\<rparr>) = {} \<and>
   counter (manager \<lparr>manager = new_pool [[97], [98]], attempts = []\<rparr>) [97] + 1
     < max_retries (manager \<lparr>manager = new_pool [[97], [98]], attempts = []\<rparr>) \<and>
   counter (manager \<lparr>manager = new_pool [[97], [98]], attempts = []\<rparr>) [98] + 1
     < max_retries (manager \<lparr>manager = new_pool [[97], [98]], attempts = []\<rparr>) \<and>
   fst (generate_content_with_fallback failing_remote [112] None (Some 2)
          \<lparr>manager = new_pool [[97], [98]], attempts = []\<rparr>) = None \<and>
   attempts (snd (generate_content_with_fallback failing_remote [112] None (Some 2)
          \<lparr>manager = new_pool [[97], [98]], attempts = []\<rparr>))
     = [([97], None, [112]), ([98], None, [112])] \<and>
   counter (manager (snd (generate_content_with_fallback failing_remote [112] None (Some 2)
          \<lparr>manager = new_pool [[97], [98]], attempts = []\<rparr>))) [97] = 1 \<and>
   counter (manager (snd (generate_content_with_fallback failing_remote [112] None (Some 2)
          \<lparr>manager = new_pool [[97], [98]], attempts = []\<rparr>))) [98] = 1"
proof -
  let ?w = "\<lparr>manager = new_pool [[97], [98]], attempts = []\<rparr>"
  have h1: "always_fails failing_remote"
    by (simp add: always_fails_def failing_remote_def)
  have h2: "api_keys (manager ?w) \<noteq> []" and h3: "[] \<notin> set (api_keys (manager ?w))"
    and h4: "distinct (api_keys (manager ?w))" and h5: "failed_keys (manager ?w) = {}"
    and h6: "\<forall>key \<in> set (api_keys (manager ?w)).
               counter (manager ?w) key + 1 < max_retries (manager ?w)"
    by (simp_all add: new_pool_def counter_def)
  have k: "int (length (api_keys (manager ?w))) = 2" and ks: "api_keys (manager ?w) = [[97], [98]]"
    and c: "counter (manager ?w) key = 0" and i: "current_key_index (manager ?w) = 0" for key
    by (simp_all add: new_pool_def counter_def)
  from fallback_all_fail [OF h1 h2 h3, of "[112]" None] h4 h5 h6
  have "fst (generate_content_with_fallback failing_remote [112] None (Some 2) ?w) = None"
    and "attempts (snd (generate_content_with_fallback failing_remote [112] None (Some 2) ?w))
              = attempts ?w @ map (\<lambda>key. (key, None, [112]))
                               (rotate (current_key_index (manager ?w)) (api_keys (manager ?w)))"
    and "\<forall>key \<in> set (api_keys (manager ?w)).
               counter (manager (snd (generate_content_with_fallback failing_remote [112] None (Some 2) ?w))) key
                 = counter (manager ?w) key + 1"
    unfolding k by blast+
  then show ?thesis
    using h1 h2 h3 h4 h5 h6 unfolding ks c i by (simp add: new_pool_def)
qed

section \<open>Properties of the agents and the pipeline\<close>

lemma fallback_loop_fails:
  assumes "always_fails remote"
  shows "fst (fallback_loop remote prompt model_name n w) = None"
proof (induction n arbitrary: w)
  case 0
  show ?case by simp
next
  case (Suc n)
  have r: "remote i key model_name prompt = None" for i key
    using assms by (simp add: always_fails_def)
  show ?case
    by (simp add: r Suc.IH split: prod.splits option.splits)
qed

lemma process_with_gemini_fails:
  assumes "always_fails remote"
  shows "fst (process_with_gemini remote a c w) = Inl RuntimeError"
proof -
  have "fst (generate_content_with_fallback remote (full_prompt (agent_prompt a) c) (agent_model a) None w) = None"
    by (simp add: generate_content_with_fallback_def fallback_loop_fails [OF assms])
  then show ?thesis
    by (cases "generate_content_with_fallback remote (full_prompt (agent_prompt a) c) (agent_model a) None w")
       (simp add: process_with_gemini_def)
qed

lemma process_with_gemini_fails_pair:
  assumes "always_fails remote"
  obtains w' where "process_with_gemini remote a c w = (Inl RuntimeError, w')"
  using process_with_gemini_fails [OF assms, of a c w]
  by (cases "process_with_gemini remote a c w") simp

lemma startswith_iff: "startswith s p \<longleftrightarrow> (\<exists>ss. s = p @ ss)"
proof
  assume "startswith s p"
  then have "s = p @ drop (length p) s"
    by (metis append_take_drop_id startswith_def)
  then show "\<exists>ss. s = p @ ss" ..
next
  assume "\<exists>ss. s = p @ ss"
  then show "startswith s p" by (auto simp: startswith_def)
qed

lemma contains_iff: "contains sub s \<longleftrightarrow> (\<exists>ps ss. s = ps @ sub @ ss)"
proof (induction s)
  case Nil
  show ?case by auto
next
  case (Cons c cs)
  show ?case
  proof
    assume "contains sub (c # cs)"
    then consider "startswith (c # cs) sub" | "contains sub cs" by auto
    then show "\<exists>ps ss. c # cs = ps @ sub @ ss"
    proof cases
      case 1
      then obtain ss where "c # cs = sub @ ss" by (auto simp: startswith_iff)
      then have "c # cs = [] @ sub @ ss" by simp
      then show ?thesis by blast
    next
      case 2
      then obtain ps ss where "cs = ps @ sub @ ss" using Cons.IH by auto
      then have "c # cs = (c # ps) @ sub @ ss" by simp
      then show ?thesis by blast
    qed
  next
    assume "\<exists>ps ss. c # cs = ps @ sub @ ss"
    then obtain ps ss where e: "c # cs = ps @ sub @ ss" by auto
    show "contains sub (c # cs)"
    proof (cases ps)
      case Nil
      with e have "startswith (c # cs) sub" by (auto simp: startswith_iff)
      then show ?thesis by simp
    next
      case (Cons p ps')
      with e have "cs = ps' @ sub @ ss" by simp
      then have "contains sub cs" using Cons.IH by blast
      then show ?thesis by simp
    qed
  qed
qed

lemma contains_self_mid: "contains sub (a @ sub @ b)"
  by (auto simp: contains_iff)

lemma contains_self_end: "contains sub (a @ sub)"
  using contains_self_mid [of sub a "[]"] by simp

lemma contains_append_left: "contains sub s \<Longrightarrow> contains sub (p @ s)"
proof -
  assume "contains sub s"
  then obtain ps ss where "s = ps @ sub @ ss" by (auto simp: contains_iff)
  then have "p @ s = (p @ ps) @ sub @ ss" by simp
  then show ?thesis unfolding contains_iff by blast
qed

lemma contains_append_right: "contains sub s \<Longrightarrow> contains sub (s @ q)"
proof -
  assume "contains sub s"
  then obtain ps ss where "s = ps @ sub @ ss" by (auto simp: contains_iff)
  then have "s @ q = ps @ sub @ (ss @ q)" by simp
  then show ?thesis unfolding contains_iff by blast
qed

lemma startswith_append: "startswith s p \<Longrightarrow> startswith (s @ q) p"
  by (auto simp: startswith_iff)

lemma structurer_has_math:
  "has_math (fst (StructurerVisualizerAgent_process tab remote a ex w)) = math_flag tab (main_content ex)"
  by (simp add: StructurerVisualizerAgent_process_def Let_def)

lemma latex_fails:
  assumes "always_fails remote" and "has_math sd"
  shows "fst (LatexExpertAgent_process tab remote a sd w) =
           \<lparr>content = re_sub tab latex_block_pattern block_template
                         (re_sub tab latex_inline_pattern inline_template (structured_content sd))
                       @ math_notice,
            latex_processed = True\<rparr>"
proof -
  obtain w' where "process_with_gemini remote a (latex_request (structured_content sd)) w
                     = (Inl RuntimeError, w')"
    using assms(1) by (rule process_with_gemini_fails_pair)
  with assms(2) show ?thesis
    by (simp add: LatexExpertAgent_process_def)
qed

lemma formatter_fails:
  assumes "always_fails remote"
  shows "fst (ObsidianFormatterAgent_process tab clock remote a ld w)
           = ensure_metadata clock (with_fallback_tags tab ld)"
proof -
  obtain w' where "process_with_gemini remote a (review_request (content ld)) w
                     = (Inl RuntimeError, w')"
    using assms by (rule process_with_gemini_fails_pair)
  then show ?thesis
    by (simp add: ObsidianFormatterAgent_process_def)
qed

end
